theory Spec2Isabelle
  imports Main "HOL-Library.Word" "HOL-Library.AList" "HOL-Library.Code_Target_Nat"
begin

unbundle bit_operations_syntax

chapter \<open>The embedding\<close>

section \<open>Machine types and undefined behaviour\<close>

text \<open>
  The hypervisor is C for x86-64 Linux: \<open>int\<close> is a 32-bit two's complement value,
  \<open>uint64_t\<close> and \<open>size_t\<close> are 64-bit unsigned values, \<open>char\<close> is one byte.
  Signed tests such as \<open>fd < 0\<close> are written with \<open><s\<close>.
\<close>

type_synonym c_int = "32 word"
type_synonym u64 = "64 word"
type_synonym byte = "8 word"

text \<open>
  Every way in which a function of the source does not return normally is a value:
  \<^item> \<open>IntOverflow\<close>: \<open>i++\<close> on an \<open>int\<close> loop counter equal to \<open>INT_MAX\<close>;
  \<^item> \<open>OutOfRegion a\<close>: an access at offset \<open>a\<close> outside the object it addresses
    (the guest memory mapping, or the one-byte local \<open>c\<close> of \<open>exit_io\<close>);
  \<^item> \<open>NullDeref\<close>, \<open>UseAfterFree a\<close>: a \<open>struct file\<close> access through \<open>NULL\<close> or
    through an address that holds no allocated record;
  \<^item> \<open>StoreOutsideName i\<close>: a store to \<open>ime[i]\<close> with \<open>i\<close> outside \<open>char ime[50]\<close>;
  \<^item> \<open>UnterminatedName\<close>: \<open>strcat\<close> or \<open>open\<close> reading \<open>ime\<close> finds no null byte in it;
  \<^item> \<open>NonTermination\<close>: a list walk that meets a cycle;
  \<^item> \<open>SemBlocked\<close>: \<open>sem_wait\<close> on a semaphore of value 0 (the thread waits);
  \<^item> \<open>ProcessExit\<close>: \<open>exit(EXIT_FAILURE)\<close>;
  \<^item> \<open>BadHandlerIndex\<close>: \<open>handlers[exit_reason]\<close> outside the table.
\<close>

datatype fault =
    IntOverflow
  | OutOfRegion nat
  | NullDeref
  | UseAfterFree nat
  | StoreOutsideName nat
  | UnterminatedName
  | NonTermination
  | SemBlocked
  | ProcessExit
  | BadHandlerIndex

definition fbind :: "fault + 'a \<Rightarrow> ('a \<Rightarrow> fault + 'b) \<Rightarrow> fault + 'b" where
  "fbind m f = (case m of Inl e \<Rightarrow> Inl e | Inr x \<Rightarrow> f x)"

section \<open>Hypervisor handle (init_hypervisor)\<close>

text \<open>
  \<open>struct hypervisor\<close>. The two system calls of \<open>init_hypervisor\<close> are answered by
  the host: \<open>open_kvm\<close> is what \<open>open("/dev/kvm", O_RDWR)\<close> returns and
  \<open>mmap_size_query\<close> what \<open>ioctl(kvm_fd, KVM_GET_VCPU_MMAP_SIZE, 0)\<close> returns.
  The process state that matters is the set of descriptors it holds open.
\<close>

record hypervisor =
  kvm_fd :: c_int
  kvm_run_mmap_size :: c_int

record kvm_host =
  open_kvm :: c_int
  mmap_size_query :: c_int

definition sys_open_fds :: "c_int \<Rightarrow> c_int set \<Rightarrow> c_int set" where
  "sys_open_fds r fds = (if r <s 0 then fds else insert r fds)"

definition sys_close_fds :: "c_int \<Rightarrow> c_int set \<Rightarrow> c_int set" where
  "sys_close_fds fd fds = fds - {fd}"

text \<open>\<open>init_hypervisor\<close> of nivoC/mini_hypervisor.c (lines 54-73).\<close>

definition init_hypervisor ::
  "kvm_host \<Rightarrow> hypervisor \<Rightarrow> c_int set \<Rightarrow> c_int \<times> hypervisor \<times> c_int set" where
  "init_hypervisor env hv fds =
     (let hv1 = hv\<lparr>kvm_fd := open_kvm env\<rparr>;
          fds1 = sys_open_fds (open_kvm env) fds
      in if kvm_fd hv1 <s 0 then (- 1, hv1, fds1)
         else
           let hv2 = hv1\<lparr>kvm_run_mmap_size := mmap_size_query env\<rparr>
           in if kvm_run_mmap_size hv2 <s 0 then (- 1, hv2, fds1)
              else (0, hv2, fds1))"

text \<open>
  \<open>init_hypervisor\<close> of nivoA/mini_hypervisor.c (lines 45-65): the same function, with
  \<open>close(hypervisor->kvm_fd)\<close> on the failure path of the query.
\<close>

definition init_hypervisor_nivoA ::
  "kvm_host \<Rightarrow> hypervisor \<Rightarrow> c_int set \<Rightarrow> c_int \<times> hypervisor \<times> c_int set" where
  "init_hypervisor_nivoA env hv fds =
     (let hv1 = hv\<lparr>kvm_fd := open_kvm env\<rparr>;
          fds1 = sys_open_fds (open_kvm env) fds
      in if kvm_fd hv1 <s 0 then (- 1, hv1, fds1)
         else
           let hv2 = hv1\<lparr>kvm_run_mmap_size := mmap_size_query env\<rparr>
           in if kvm_run_mmap_size hv2 <s 0
              then (- 1, hv2, sys_close_fds (kvm_fd hv2) fds1)
              else (0, hv2, fds1))"

section \<open>Long-mode bootstrap (setup_long_mode)\<close>

text \<open>
  The constants of lines 24-40. The guest memory is the mapping \<open>vm->mem\<close> of \<open>mem_size\<close>
  bytes; \<open>setup_long_mode\<close> touches it only as 64-bit slots at offsets that are multiples
  of 8, so it is a function from the byte offset of a slot to the value held there. An
  access whose eight bytes do not lie inside the mapping is the fault \<open>OutOfRegion\<close>.
\<close>

datatype PageSize = MB2 | KB4

definition PDE64_PRESENT :: u64 where "PDE64_PRESENT = 1"
definition PDE64_RW :: u64 where "PDE64_RW = push_bit 1 1"
definition PDE64_USER :: u64 where "PDE64_USER = push_bit 2 1"
definition PDE64_PS :: u64 where "PDE64_PS = push_bit 7 1"
definition CR4_PAE :: u64 where "CR4_PAE = push_bit 5 1"
definition CR0_PE :: u64 where "CR0_PE = 1"
definition CR0_PG :: u64 where "CR0_PG = push_bit 31 1"
definition EFER_LME :: u64 where "EFER_LME = push_bit 8 1"
definition EFER_LMA :: u64 where "EFER_LMA = push_bit 10 1"
definition SIZE2MB :: u64 where "SIZE2MB = 2 * 1024 * 1024"
definition INT_MAX :: nat where "INT_MAX = 2147483647"

type_synonym guest_mem = "nat \<Rightarrow> u64"

definition store64 :: "u64 \<Rightarrow> guest_mem \<Rightarrow> nat \<Rightarrow> u64 \<Rightarrow> fault + guest_mem" where
  "store64 mem_size mem a v =
     (if a + 8 \<le> unat mem_size then Inr (mem(a := v)) else Inl (OutOfRegion a))"

definition load64 :: "u64 \<Rightarrow> guest_mem \<Rightarrow> nat \<Rightarrow> fault + u64" where
  "load64 mem_size mem a =
     (if a + 8 \<le> unat mem_size then Inr (mem a) else Inl (OutOfRegion a))"

text \<open>
  The fields of \<open>struct kvm_segment\<close> and \<open>struct kvm_sregs\<close> that the source assigns. The
  vCPU is what the two ioctls \<open>KVM_GET_SREGS\<close> and \<open>KVM_SET_SREGS\<close> see: whether each of
  them succeeds, and the registers the kernel holds.
\<close>

record kvm_segment =
  seg_base :: u64
  seg_limit :: "32 word"
  seg_type :: byte
  seg_present :: byte
  seg_dpl :: byte
  seg_db :: byte
  seg_s :: byte
  seg_l :: byte
  seg_g :: byte

record kvm_sregs =
  cs :: kvm_segment
  ds :: kvm_segment
  es :: kvm_segment
  fs :: kvm_segment
  gs :: kvm_segment
  ss :: kvm_segment
  cr0 :: u64
  cr3 :: u64
  cr4 :: u64
  efer :: u64

record vcpu =
  get_sregs_ok :: bool
  set_sregs_ok :: bool
  vcpu_sregs :: kvm_sregs

text \<open>
\<open>setup_64bit_code_segment\<close> (lines 199-217).
\<close>

definition setup_64bit_code_segment :: "kvm_sregs \<Rightarrow> kvm_sregs" where
  "setup_64bit_code_segment sregs =
     (let segment = \<lparr>seg_base = 0, seg_limit = 0xffffffff, seg_type = 11, seg_present = 1, seg_dpl = 0,
                       seg_db = 0, seg_s = 1, seg_l = 1, seg_g = 1\<rparr>;
          sregs1 = sregs\<lparr>cs := segment\<rparr>;
          segment1 = segment\<lparr>seg_type := 3\<rparr>
      in sregs1\<lparr>ss := segment1, gs := segment1, fs := segment1, es := segment1,
                 ds := segment1\<rparr>)"

text \<open>
  The four loops of \<open>setup_long_mode\<close>: the PD loop of the MB2 branch (lines 258-262), the
  PD loop of the KB4 branch (lines 265-268), the inner loop over the slots of one page
  table (lines 275-280), which returns the advanced \<open>page_address\<close>, and the loop over the
  page tables around it (lines 271-281). The counter \<open>i\<close> is an \<open>int\<close> compared with a
  \<open>size_t\<close>, so it is widened to 64 bits for the test; \<open>i++\<close> at \<open>INT_MAX\<close> is the fault
  \<open>IntOverflow\<close>.
\<close>

function mb2_loop :: "u64 \<Rightarrow> u64 \<Rightarrow> nat \<Rightarrow> u64 \<Rightarrow> guest_mem \<Rightarrow> fault + guest_mem" where
  "mb2_loop mem_size pd_addr i page_address mem =
     (if (of_nat i :: u64) < mem_size div SIZE2MB - 1
      then fbind (store64 mem_size mem (unat pd_addr + 8 * i)
                    (PDE64_PRESENT OR PDE64_RW OR PDE64_USER OR PDE64_PS OR page_address))
             (\<lambda>mem'. if INT_MAX \<le> i then Inl IntOverflow
                     else mb2_loop mem_size pd_addr (i + 1) (page_address + SIZE2MB) mem')
      else Inr mem)"
  by pat_completeness auto
termination
  by (relation "measure (\<lambda>(mem_size, pd_addr, i, page_address, mem). INT_MAX - i)") auto

function kb4_pd_loop :: "u64 \<Rightarrow> u64 \<Rightarrow> nat \<Rightarrow> u64 \<Rightarrow> guest_mem \<Rightarrow> fault + (u64 \<times> guest_mem)" where
  "kb4_pd_loop mem_size pd_addr i page mem =
     (if (of_nat i :: u64) < mem_size div SIZE2MB
      then fbind (store64 mem_size mem (unat pd_addr + 8 * i)
                    (PDE64_PRESENT OR PDE64_RW OR PDE64_USER OR page))
             (\<lambda>mem'. if INT_MAX \<le> i then Inl IntOverflow
                     else kb4_pd_loop mem_size pd_addr (i + 1) (page + 0x1000) mem')
      else Inr (page, mem))"
  by pat_completeness auto
termination
  by (relation "measure (\<lambda>(mem_size, pd_addr, i, page, mem). INT_MAX - i)") auto

function pt_loop :: "u64 \<Rightarrow> nat \<Rightarrow> nat \<Rightarrow> u64 \<Rightarrow> guest_mem \<Rightarrow> fault + (u64 \<times> guest_mem)" where
  "pt_loop mem_size pt_addr j page_address mem =
     (if j < 512
      then if page_address > mem_size then Inr (page_address, mem)
           else fbind (store64 mem_size mem (pt_addr + 8 * j)
                         (page_address OR PDE64_PRESENT OR PDE64_RW OR PDE64_USER))
                  (\<lambda>mem'. pt_loop mem_size pt_addr (j + 1) (page_address + 0x1000) mem')
      else Inr (page_address, mem))"
  by pat_completeness auto
termination
  by (relation "measure (\<lambda>(mem_size, pt_addr, j, page_address, mem). 512 - j)") auto

function kb4_pt_loop :: "u64 \<Rightarrow> u64 \<Rightarrow> nat \<Rightarrow> u64 \<Rightarrow> guest_mem \<Rightarrow> fault + guest_mem" where
  "kb4_pt_loop mem_size pd_addr i page_address mem =
     (if (of_nat i :: u64) < mem_size div SIZE2MB
      then fbind (load64 mem_size mem (unat pd_addr + 8 * i))
             (\<lambda>pde. let pt_addr = pde AND NOT 0xFFF
                    in fbind (pt_loop mem_size (unat pt_addr) 0 page_address mem)
                         (\<lambda>(page_address', mem').
                            if INT_MAX \<le> i then Inl IntOverflow
                            else kb4_pt_loop mem_size pd_addr (i + 1) page_address' mem'))
      else Inr mem)"
  by pat_completeness auto
termination
  by (relation "measure (\<lambda>(mem_size, pd_addr, i, page_address, mem). INT_MAX - i)") auto

declare mb2_loop.simps [simp del] kb4_pd_loop.simps [simp del]
  pt_loop.simps [simp del] kb4_pt_loop.simps [simp del]

text \<open>
  \<open>setup_long_mode\<close> (lines 227-302). The result is the \<open>int\<close> the function returns (the
  64-bit \<open>page\<close> narrowed by \<open>return page\<close>), the guest memory and the vCPU.
\<close>

definition setup_long_mode ::
  "vcpu \<Rightarrow> guest_mem \<Rightarrow> u64 \<Rightarrow> PageSize \<Rightarrow> fault + (c_int \<times> guest_mem \<times> vcpu)" where
  "setup_long_mode vc mem mem_size page_size =
     (if \<not> get_sregs_ok vc then Inr (- 1, mem, vc)
      else
        let sregs = vcpu_sregs vc;
            pml4_addr = (0 :: u64);
            pdpt_addr = (0x1000 :: u64);
            pd_addr = (0x2000 :: u64);
            page = (0x3000 :: u64)
        in fbind (store64 mem_size mem (unat pml4_addr)
                    (PDE64_PRESENT OR PDE64_RW OR PDE64_USER OR pdpt_addr))
          (\<lambda>mem1. fbind (store64 mem_size mem1 (unat pdpt_addr)
                    (PDE64_PRESENT OR PDE64_RW OR PDE64_USER OR pd_addr))
          (\<lambda>mem2. fbind
             (if page_size = MB2
              then let page' = (page div SIZE2MB + 1) * SIZE2MB
                   in fbind (mb2_loop mem_size pd_addr 0 page' mem2) (\<lambda>mem3. Inr (page', mem3))
              else fbind (kb4_pd_loop mem_size pd_addr 0 page mem2)
                     (\<lambda>(page', mem3).
                        fbind (kb4_pt_loop mem_size pd_addr 0 page' mem3)
                          (\<lambda>mem4. Inr (page', mem4))))
          (\<lambda>(page', mem3).
             let sregs1 = sregs\<lparr>cr3 := pml4_addr, cr4 := CR4_PAE, cr0 := CR0_PE OR CR0_PG,
                                 efer := EFER_LMA OR EFER_LME\<rparr>;
                 sregs2 = setup_64bit_code_segment sregs1
             in if \<not> set_sregs_ok vc then Inr (- 1, mem3, vc)
                else Inr (ucast page', mem3, vc\<lparr>vcpu_sregs := sregs2\<rparr>)))))"

text \<open>
  The address of the 4 KiB frame number \<open>p\<close>; the KB4 branch advances \<open>page\<close> and
  \<open>page_address\<close> in steps of \<open>0x1000\<close> (lines 267 and 279).
\<close>

definition page_at :: "nat \<Rightarrow> u64" where
  "page_at p = of_nat (4096 * p)"

section \<open>Paravirtual file engine\<close>

text \<open>
  The operation codes (lines 17-21) and the flag values the guest uses (guest.c, lines
  7-21), which are those of Linux.
\<close>

definition OPEN :: c_int where "OPEN = 1"
definition CLOSE :: c_int where "CLOSE = 2"
definition READ :: c_int where "READ = 3"
definition WRITE :: c_int where "WRITE = 4"
definition FINISH :: c_int where "FINISH = 0"

definition O_RDONLY :: c_int where "O_RDONLY = 0"
definition O_WRONLY :: c_int where "O_WRONLY = 1"
definition O_RDWR :: c_int where "O_RDWR = 2"
definition O_CREAT :: c_int where "O_CREAT = 64"
definition O_TRUNC :: c_int where "O_TRUNC = 512"
definition O_APPEND :: c_int where "O_APPEND = 1024"
definition EOF :: byte where "EOF = - 1"

text \<open>
  \<open>struct file\<close> (lines 76-83). The records live in a heap keyed by address; \<open>next\<close> is an
  address or \<open>NULL\<close>. \<open>cnt\<close> starts at 0 and only counts up, and the store it indexes
  faults from 50 on, so it is a natural number. \<open>struct file** file_indirect\<close> points at
  the \<open>file_head\<close> of the guest or at the \<open>next\<close> field of a record.
\<close>

type_synonym addr = nat

record vm_file =
  fd :: c_int
  flags :: c_int
  mode :: "32 word"
  cnt :: nat
  next_p :: "addr option"
  ime :: "byte list"

type_synonym heap = "(addr \<times> vm_file) list"

datatype indirect = HeadPtr | NextPtr addr

text \<open>
  The \<open>io\<close> part of the run region: direction, size, port and the four bytes at
  \<open>data_offset\<close> as one little-endian value (a \<open>char\<close> access is its low byte).
  \<open>struct guest\<close> (lines 86-98) without the KVM descriptors and the memory pointer, which
  the handlers do not use. A handler acts on the guest, the heap of file records, the
  value of the semaphore \<open>file_mutex\<close> (line 369) and the state of the host.
\<close>

datatype io_dir = KVM_EXIT_IO_IN | KVM_EXIT_IO_OUT

record kvm_io =
  io_direction :: io_dir
  io_size :: nat
  io_port :: "16 word"
  io_data :: "32 word"

record guest =
  pty_master :: c_int
  pty_slave :: c_int
  lock :: c_int
  id_vm :: c_int
  file_head :: "addr option"
  file_indirect :: indirect
  current_file :: "addr option"
  io :: kvm_io

record 'h world =
  vm :: guest
  heap :: heap
  file_mutex :: nat
  host :: 'h

text \<open>
  The system calls of the handlers over a host state \<open>'h\<close>: \<open>access(path, F_OK) == 0\<close>,
  \<open>open(path, flags, mode)\<close>, \<open>close(fd)\<close>, \<open>read(fd, &c, 1)\<close> (its result and the byte it
  stored) and \<open>write(fd, buf, n)\<close>.
\<close>

record 'h host_ops =
  sys_access :: "'h \<Rightarrow> byte list \<Rightarrow> bool"
  sys_open :: "'h \<Rightarrow> byte list \<Rightarrow> c_int \<Rightarrow> 32 word \<Rightarrow> c_int \<times> 'h"
  sys_close :: "'h \<Rightarrow> c_int \<Rightarrow> c_int \<times> 'h"
  sys_read :: "'h \<Rightarrow> c_int \<Rightarrow> (c_int \<times> byte) \<times> 'h"
  sys_write :: "'h \<Rightarrow> c_int \<Rightarrow> byte list \<Rightarrow> c_int \<times> 'h"

text \<open>
  What the C implementation decides: the pointer \<open>malloc\<close> returns (\<open>NULL\<close> or a fresh
  address), the bytes the new storage holds, and the value of the uninitialised local
  \<open>c\<close> of \<open>exit_io\<close>.
\<close>

record env =
  malloc_ret :: "addr option"
  malloc_bytes :: "byte list"
  stack_c :: byte

text \<open>
  An access through a \<open>struct file*\<close>; \<open>set_current\<close> stores through \<open>vm->current_file\<close>.
  \<open>set_io_int\<close> and \<open>set_io_char\<close> store an \<open>int\<close> and a \<open>char\<close> at \<open>data_offset\<close>.
\<close>

definition deref :: "heap \<Rightarrow> addr option \<Rightarrow> fault + vm_file" where
  "deref h p =
     (case p of
        None \<Rightarrow> Inl NullDeref
      | Some a \<Rightarrow> (case map_of h a of None \<Rightarrow> Inl (UseAfterFree a) | Some f \<Rightarrow> Inr f))"

definition set_current :: "'h world \<Rightarrow> vm_file \<Rightarrow> 'h world" where
  "set_current w f =
     (case current_file (vm w) of
        None \<Rightarrow> w
      | Some a \<Rightarrow> w\<lparr>heap := AList.update a f (heap w)\<rparr>)"

definition set_io_int :: "'h world \<Rightarrow> c_int \<Rightarrow> 'h world" where
  "set_io_int w v = w\<lparr>vm := (vm w)\<lparr>io := (io (vm w))\<lparr>io_data := v\<rparr>\<rparr>\<rparr>"

definition set_io_char :: "'h world \<Rightarrow> byte \<Rightarrow> 'h world" where
  "set_io_char w c =
     w\<lparr>vm := (vm w)\<lparr>io := (io (vm w))\<lparr>io_data :=
        (io_data (io (vm w)) AND NOT 0xFF) OR ucast c\<rparr>\<rparr>\<rparr>"

text \<open>
\<open>init_file\<close> (lines 376-392); \<open>ime\<close> is not initialised.
\<close>

definition init_file :: "env \<Rightarrow> heap \<Rightarrow> fault + (addr \<times> heap)" where
  "init_file e h =
     (case malloc_ret e of
        None \<Rightarrow> Inl ProcessExit
      | Some a \<Rightarrow>
          Inr (a, AList.update a
                 \<lparr>fd = - 1, flags = - 1, mode = - 1, cnt = 0, next_p = None,
                  ime = take 50 (malloc_bytes e @ replicate 50 0)\<rparr> h))"

text \<open>
  \<open>sem_wait\<close> and \<open>sem_post\<close> on \<open>file_mutex\<close>, as one thread sees them, and the accesses
  through \<open>file_indirect\<close>.
\<close>

definition sem_wait :: "'h world \<Rightarrow> fault + 'h world" where
  "sem_wait w =
     (if file_mutex w = 0 then Inl SemBlocked else Inr (w\<lparr>file_mutex := file_mutex w - 1\<rparr>))"

definition sem_post :: "'h world \<Rightarrow> 'h world" where
  "sem_post w = w\<lparr>file_mutex := file_mutex w + 1\<rparr>"

definition read_indirect :: "guest \<Rightarrow> heap \<Rightarrow> indirect \<Rightarrow> fault + addr option" where
  "read_indirect g h ind =
     (case ind of
        HeadPtr \<Rightarrow> Inr (file_head g)
      | NextPtr p \<Rightarrow> fbind (deref h (Some p)) (\<lambda>f. Inr (next_p f)))"

definition write_indirect ::
  "guest \<Rightarrow> heap \<Rightarrow> indirect \<Rightarrow> addr option \<Rightarrow> fault + (guest \<times> heap)" where
  "write_indirect g h ind v =
     (case ind of
        HeadPtr \<Rightarrow> Inr (g\<lparr>file_head := v\<rparr>, h)
      | NextPtr p \<Rightarrow>
          fbind (deref h (Some p)) (\<lambda>f. Inr (g, AList.update p (f\<lparr>next_p := v\<rparr>) h)))"

text \<open>
\<open>start_file_operation\<close> (lines 402-416) and \<open>end_file_operation\<close> (lines 424-430).
\<close>

definition start_file_operation ::
  "env \<Rightarrow> 'h world \<Rightarrow> c_int \<Rightarrow> fault + (c_int \<times> 'h world)" where
  "start_file_operation e w operation =
     fbind (sem_wait w)
       (\<lambda>w1. let w2 = w1\<lparr>vm := (vm w1)\<lparr>lock := operation\<rparr>\<rparr>
             in if operation = OPEN
                then fbind (init_file e (heap w2))
                  (\<lambda>(new_file, h1).
                     fbind (write_indirect (vm w2) h1 (file_indirect (vm w2)) (Some new_file))
                       (\<lambda>(g, h2).
                          Inr (0, w2\<lparr>vm := g\<lparr>file_indirect := NextPtr new_file,
                                              current_file := Some new_file\<rparr>,
                                     heap := h2\<rparr>)))
                else Inr (0, w2))"

definition end_file_operation :: "'h world \<Rightarrow> fault + (c_int \<times> 'h world)" where
  "end_file_operation w =
     (let w1 = sem_post w
      in Inr (0, w1\<lparr>vm := (vm w1)\<lparr>lock := 0, current_file := None\<rparr>\<rparr>))"

text \<open>
  \<open>sprintf(path, "vm_%d_", vm->id)\<close> followed by \<open>strcat(path, vm->current_file->ime)\<close>:
  the decimal digits of the id and the name up to its first null byte
  (\<open>check_path_exists\<close>, lines 438-448, and \<open>create_local_copy\<close>, lines 456-463).
\<close>

fun dec_nat :: "nat \<Rightarrow> byte list" where
  "dec_nat n = (if n < 10 then [of_nat (48 + n)] else dec_nat (n div 10) @ [of_nat (48 + n mod 10)])"

declare dec_nat.simps [simp del]

definition dec_int :: "c_int \<Rightarrow> byte list" where
  "dec_int i = (if i <s 0 then 45 # dec_nat (nat (- sint i)) else dec_nat (nat (sint i)))"

definition cstr :: "byte list \<Rightarrow> fault + byte list" where
  "cstr buf = (if 0 \<in> set buf then Inr (takeWhile (\<lambda>b. b \<noteq> 0) buf) else Inl UnterminatedName)"

definition sandbox_path :: "c_int \<Rightarrow> byte list \<Rightarrow> byte list" where
  "sandbox_path i name = map of_char ''vm_'' @ dec_int i @ map of_char ''_'' @ name"

definition check_path_exists :: "'h host_ops \<Rightarrow> 'h world \<Rightarrow> fault + (c_int \<times> 'h world)" where
  "check_path_exists ops w =
     fbind (deref (heap w) (current_file (vm w)))
       (\<lambda>f. fbind (cstr (ime f))
          (\<lambda>name. let path = sandbox_path (id_vm (vm w)) name
                 in if sys_access ops (host w) path
                    then (case sys_open ops (host w) path (flags f) (mode f) of
                            (r, h') \<Rightarrow> Inr (r, w\<lparr>host := h'\<rparr>))
                    else Inr (- 1, w)))"

definition create_local_copy :: "'h host_ops \<Rightarrow> 'h world \<Rightarrow> fault + 'h world" where
  "create_local_copy ops w =
     fbind (deref (heap w) (current_file (vm w)))
       (\<lambda>f. fbind (cstr (ime f))
          (\<lambda>name. let path = sandbox_path (id_vm (vm w)) name
                 in (case sys_open ops (host w) path O_CREAT 511 of
                       (r, h') \<Rightarrow> Inr (w\<lparr>host := h'\<rparr>))))"


text \<open>
  \<open>opened_file_op_flags\<close> (lines 472-497), \<open>opened_file_op_send_fd\<close> (lines 505-508) and
  \<open>opened_file_op_name\<close> (lines 517-520).
\<close>

definition opened_file_op_flags ::
  "'h host_ops \<Rightarrow> 'h world \<Rightarrow> c_int \<Rightarrow> fault + (c_int \<times> 'h world)" where
  "opened_file_op_flags ops w data =
     fbind (deref (heap w) (current_file (vm w)))
       (\<lambda>f. if flags f = - 1
            then Inr (0, set_current w (f\<lparr>flags := data\<rparr>))
            else
              let f1 = f\<lparr>mode := data\<rparr>;
                  w1 = set_current w f1
              in fbind (check_path_exists ops w1)
                   (\<lambda>(local_fd, w2).
                      if local_fd <s 0
                      then if flags f1 AND (O_RDWR OR O_WRONLY OR O_TRUNC OR O_APPEND) \<noteq> 0
                           then fbind (create_local_copy ops w2)
                                  (\<lambda>w3. fbind (check_path_exists ops w3)
                                     (\<lambda>(r, w4). Inr (0, set_current w4 (f1\<lparr>fd := r\<rparr>))))
                           else fbind (cstr (ime f1))
                                  (\<lambda>name. case sys_open ops (host w2) name (flags f1) (mode f1) of
                                       (r, h') \<Rightarrow>
                                         Inr (0, set_current (w2\<lparr>host := h'\<rparr>) (f1\<lparr>fd := r\<rparr>)))
                      else Inr (0, set_current w2 (f1\<lparr>fd := local_fd\<rparr>))))"

definition opened_file_op_send_fd :: "'h world \<Rightarrow> fault + (c_int \<times> 'h world)" where
  "opened_file_op_send_fd w =
     fbind (deref (heap w) (current_file (vm w)))
       (\<lambda>f. end_file_operation (set_io_int w (fd f)))"

definition opened_file_op_name :: "'h world \<Rightarrow> byte \<Rightarrow> fault + (c_int \<times> 'h world)" where
  "opened_file_op_name w data =
     fbind (deref (heap w) (current_file (vm w)))
       (\<lambda>f. if cnt f < 50
            then Inr (0, set_current w (f\<lparr>ime := (ime f)[cnt f := data], cnt := cnt f + 1\<rparr>))
            else Inl (StoreOutsideName (cnt f)))"

text \<open>
  \<open>get_file_descriptor\<close> (lines 529-539). A walk over a list without a cycle visits at
  most as many records as the heap holds, which is the fuel of \<open>find_fd\<close> and of
  \<open>unlink_file\<close> below; running out of it is the walk that does not end.
\<close>

fun find_fd :: "nat \<Rightarrow> heap \<Rightarrow> addr option \<Rightarrow> c_int \<Rightarrow> fault + addr option" where
  "find_fd n h None data = Inr None"
| "find_fd 0 h (Some a) data = Inl NonTermination"
| "find_fd (Suc n) h (Some a) data =
     fbind (deref h (Some a))
       (\<lambda>f. if fd f = data then Inr (Some a) else find_fd n h (next_p f) data)"

definition get_file_descriptor :: "'h world \<Rightarrow> c_int \<Rightarrow> fault + (c_int \<times> 'h world)" where
  "get_file_descriptor w data =
     fbind (find_fd (length (heap w)) (heap w) (file_head (vm w)) data)
       (\<lambda>r. case r of
              None \<Rightarrow> Inr (0, w)
            | Some a \<Rightarrow> Inr (0, w\<lparr>vm := (vm w)\<lparr>current_file := Some a\<rparr>\<rparr>))"

text \<open>
\<open>close_op_status\<close> (lines 547-565): the unlink loop, \<open>free\<close> and the function.
\<close>

fun unlink_file ::
  "nat \<Rightarrow> guest \<Rightarrow> heap \<Rightarrow> indirect \<Rightarrow> fault + (guest \<times> heap)" where
  "unlink_file n g h ind =
     fbind (read_indirect g h ind)
       (\<lambda>p. case p of
              None \<Rightarrow> Inr (g, h)
            | Some a \<Rightarrow>
                if Some a = current_file g
                then fbind (deref h (current_file g)) (\<lambda>f. write_indirect g h ind (next_p f))
                else (case n of
                        0 \<Rightarrow> Inl NonTermination
                      | Suc m \<Rightarrow> unlink_file m g h (NextPtr a)))"

declare unlink_file.simps [simp del]

definition free_file :: "heap \<Rightarrow> addr option \<Rightarrow> fault + heap" where
  "free_file h p =
     (case p of
        None \<Rightarrow> Inr h
      | Some a \<Rightarrow> (case map_of h a of
                     None \<Rightarrow> Inl (UseAfterFree a)
                   | Some f \<Rightarrow> Inr (AList.delete a h)))"

definition close_op_status :: "'h host_ops \<Rightarrow> 'h world \<Rightarrow> fault + (c_int \<times> 'h world)" where
  "close_op_status ops w =
     fbind (if current_file (vm w) = None then Inr (- 1, host w)
            else fbind (deref (heap w) (current_file (vm w)))
                   (\<lambda>f. Inr (sys_close ops (host w) (fd f))))
       (\<lambda>(status, h').
          fbind (unlink_file (length (heap w)) (vm w) (heap w) HeadPtr)
            (\<lambda>(g, hp).
               fbind (free_file hp (current_file g))
                 (\<lambda>hp'. Inr (0, set_io_int (w\<lparr>vm := g, heap := hp', host := h'\<rparr>) status))))"

text \<open>
\<open>read_file\<close> (lines 573-584) and \<open>write_file\<close> (lines 593-601).
\<close>

definition read_file :: "'h host_ops \<Rightarrow> 'h world \<Rightarrow> fault + (c_int \<times> 'h world)" where
  "read_file ops w =
     (if current_file (vm w) = None then Inr (0, set_io_char w EOF)
      else fbind (deref (heap w) (current_file (vm w)))
             (\<lambda>f. case sys_read ops (host w) (fd f) of
                    ((status, c), h') \<Rightarrow>
                      Inr (0, set_io_char (w\<lparr>host := h'\<rparr>) (if status = 1 then c else EOF))))"

definition write_file :: "'h host_ops \<Rightarrow> 'h world \<Rightarrow> byte \<Rightarrow> fault + (c_int \<times> 'h world)" where
  "write_file ops w data =
     (if current_file (vm w) = None then Inr (0, set_io_char w EOF)
      else fbind (deref (heap w) (current_file (vm w)))
             (\<lambda>f. case sys_write ops (host w) (fd f) [data] of
                    (r, h') \<Rightarrow> Inr (0, w\<lparr>host := h'\<rparr>)))"

text \<open>
\<open>handle_file\<close> (lines 609-642).
\<close>

definition handle_file ::
  "'h host_ops \<Rightarrow> env \<Rightarrow> 'h world \<Rightarrow> fault + (c_int \<times> 'h world)" where
  "handle_file ops e w =
     (let r = io (vm w)
      in if io_direction r = KVM_EXIT_IO_OUT \<and> io_size r = 4
         then let data = io_data r
              in if lock (vm w) = 0 then start_file_operation e w data
                 else if lock (vm w) = OPEN then opened_file_op_flags ops w data
                 else if data = FINISH then end_file_operation w
                 else get_file_descriptor w data
         else if io_direction r = KVM_EXIT_IO_OUT \<and> io_size r = 1
         then let data = (ucast (io_data r) :: byte)
              in if lock (vm w) = OPEN then opened_file_op_name w data
                 else if lock (vm w) = WRITE then write_file ops w data
                 else Inr (0, w)
         else if io_direction r = KVM_EXIT_IO_IN \<and> io_size r = 4
         then if lock (vm w) = CLOSE then close_op_status ops w
              else if lock (vm w) = OPEN then opened_file_op_send_fd w
              else Inr (0, w)
         else if io_direction r = KVM_EXIT_IO_IN \<and> io_size r = 1
         then if lock (vm w) = READ then read_file ops w
              else Inr (0, w)
         else Inr (0, w))"

text \<open>
  \<open>exit_io\<close> (lines 650-666). The branch for port \<open>0x278\<close> is the statement
  \<open>handle_file(vm);\<close> followed by the closing brace: nothing runs after the call, and
  the value \<open>run_guest\<close> receives is the one \<open>handle_file\<close> returned. On an OUT to
  \<open>0xE9\<close>, \<open>write\<close> reads \<open>io.size\<close> bytes of the one-byte local \<open>c\<close>.
\<close>

definition exit_io ::
  "'h host_ops \<Rightarrow> env \<Rightarrow> 'h world \<Rightarrow> fault + (c_int \<times> 'h world)" where
  "exit_io ops e w =
     (let r = io (vm w)
      in if io_direction r = KVM_EXIT_IO_OUT \<and> io_port r = 0xE9
         then let c = (ucast (io_data r) :: byte)
              in if io_size r = 1
                 then (case sys_write ops (host w) (pty_master (vm w)) [c] of
                         (n, h') \<Rightarrow> Inr (0, w\<lparr>host := h'\<rparr>))
                 else Inl (OutOfRegion (io_size r))
         else if io_direction r = KVM_EXIT_IO_IN \<and> io_port r = 0xE9
         then (case sys_read ops (host w) (pty_master (vm w)) of
                 ((status, b), h') \<Rightarrow>
                   let c = (if status = 1 then b else stack_c e)
                   in Inr (0, set_io_char (w\<lparr>host := h'\<rparr>) c))
         else if io_port r = 0x278
         then fbind (handle_file ops e w) (\<lambda>(ret, w'). Inr (ret, w'))
         else Inr (- 1, w))"

section \<open>Run loop, guest protocol and concrete hosts\<close>










text \<open>
The assignments at the end of \<open>init_guest\<close> (lines 783-787).
\<close>

definition init_guest_files :: "guest \<Rightarrow> c_int \<Rightarrow> guest" where
  "init_guest_files g incId =
     g\<lparr>lock := 0, file_head := None, file_indirect := HeadPtr, current_file := None,
       id_vm := incId\<rparr>"

text \<open>
  The guest's side of port \<open>0x278\<close> (guest.c): each \<open>outl\<close>, \<open>outb\<close>, \<open>inl\<close> or \<open>inb\<close> is one
  exit, handled by \<open>handle_file\<close>.
\<close>

datatype msg = OutDword c_int | OutByte byte | InDword | InByte

definition PARALLEL_PORT :: "16 word" where "PARALLEL_PORT = 0x278"

definition deliver :: "'h world \<Rightarrow> msg \<Rightarrow> 'h world" where
  "deliver w m =
     (let old = io_data (io (vm w));
          r = (case m of
                 OutDword d \<Rightarrow> \<lparr>io_direction = KVM_EXIT_IO_OUT, io_size = 4,
                                io_port = PARALLEL_PORT, io_data = d\<rparr>
               | OutByte b \<Rightarrow> \<lparr>io_direction = KVM_EXIT_IO_OUT, io_size = 1,
                               io_port = PARALLEL_PORT,
                               io_data = (old AND NOT 0xFF) OR ucast b\<rparr>
               | InDword \<Rightarrow> \<lparr>io_direction = KVM_EXIT_IO_IN, io_size = 4,
                             io_port = PARALLEL_PORT, io_data = old\<rparr>
               | InByte \<Rightarrow> \<lparr>io_direction = KVM_EXIT_IO_IN, io_size = 1,
                            io_port = PARALLEL_PORT, io_data = old\<rparr>)
      in w\<lparr>vm := (vm w)\<lparr>io := r\<rparr>\<rparr>)"

fun guest_msgs ::
  "'h host_ops \<Rightarrow> (env \<times> msg) list \<Rightarrow> 'h world \<Rightarrow> fault + 'h world" where
  "guest_msgs ops [] w = Inr w"
| "guest_msgs ops ((e, m) # ms) w =
     fbind (handle_file ops e (deliver w m)) (\<lambda>(ret, w'). guest_msgs ops ms w')"








text \<open>A host whose answers do not change.\<close>

definition fixed_host ::
  "(byte list \<Rightarrow> bool) \<Rightarrow> (byte list \<Rightarrow> c_int) \<Rightarrow> c_int \<times> byte \<Rightarrow> unit host_ops" where
  "fixed_host ex op rd =
     \<lparr>sys_access = (\<lambda>h p. ex p),
      sys_open = (\<lambda>h p fl m. (op p, h)),
      sys_close = (\<lambda>h d. (0, h)),
      sys_read = (\<lambda>h d. (rd, h)),
      sys_write = (\<lambda>h d bs. (of_nat (length bs), h))\<rparr>"

text \<open>
  A guest right after \<open>init_guest\<close> with id 0, the semaphore after \<open>sem_init\<close>, an
  allocator that returns address 0, a host with no files, zeroed guest memory and a vCPU
  whose ioctls succeed.
\<close>

definition blank_io :: kvm_io where
  "blank_io = \<lparr>io_direction = KVM_EXIT_IO_OUT, io_size = 0, io_port = 0, io_data = 0\<rparr>"

definition blank_guest :: guest where
  "blank_guest = \<lparr>pty_master = 0, pty_slave = 0, lock = 0, id_vm = 0, file_head = None,
     file_indirect = HeadPtr, current_file = None, io = blank_io\<rparr>"

definition boot_world :: "unit world" where
  "boot_world = \<lparr>vm = init_guest_files blank_guest 0, heap = [], file_mutex = 1, host = ()\<rparr>"

definition env0 :: env where
  "env0 = \<lparr>malloc_ret = Some 0, malloc_bytes = [], stack_c = 0x41\<rparr>"

definition no_host :: "unit host_ops" where
  "no_host = fixed_host (\<lambda>p. False) (\<lambda>p. - 1) (0, 0)"

definition zero_mem :: guest_mem where "zero_mem = (\<lambda>_. 0)"
definition vc0 :: vcpu where
  "vc0 = \<lparr>get_sregs_ok = True, set_sregs_ok = True,
      vcpu_sregs = \<lparr>cs = \<lparr>seg_base = 0, seg_limit = 0, seg_type = 0, seg_present = 0, seg_dpl = 0, seg_db = 0, seg_s = 0, seg_l = 0, seg_g = 0\<rparr>,
         ds = \<lparr>seg_base = 0, seg_limit = 0, seg_type = 0, seg_present = 0, seg_dpl = 0, seg_db = 0, seg_s = 0, seg_l = 0, seg_g = 0\<rparr>,
         es = \<lparr>seg_base = 0, seg_limit = 0, seg_type = 0, seg_present = 0, seg_dpl = 0, seg_db = 0, seg_s = 0, seg_l = 0, seg_g = 0\<rparr>,
         fs = \<lparr>seg_base = 0, seg_limit = 0, seg_type = 0, seg_present = 0, seg_dpl = 0, seg_db = 0, seg_s = 0, seg_l = 0, seg_g = 0\<rparr>,
         gs = \<lparr>seg_base = 0, seg_limit = 0, seg_type = 0, seg_present = 0, seg_dpl = 0, seg_db = 0, seg_s = 0, seg_l = 0, seg_g = 0\<rparr>,
         ss = \<lparr>seg_base = 0, seg_limit = 0, seg_type = 0, seg_present = 0, seg_dpl = 0, seg_db = 0, seg_s = 0, seg_l = 0, seg_g = 0\<rparr>,
         cr0 = 0, cr3 = 0, cr4 = 0, efer = 0\<rparr>\<rparr>"

section \<open>Concrete states and hosts\<close>

text \<open>
  The state after \<open>OUT dword OPEN\<close> on the booted guest, the same after the name \<open>foo\<close>
  and the flags \<open>O_RDONLY\<close>, a host where \<open>vm_0_foo\<close> exists but only \<open>foo\<close> can be opened,
  and a console IN exit.
\<close>

definition fresh_file :: vm_file where
  "fresh_file = \<lparr>fd = - 1, flags = - 1, mode = - 1, cnt = 0, next_p = None,
     ime = replicate 50 0\<rparr>"

definition opened_world :: "unit world" where
  "opened_world =
     \<lparr>vm = \<lparr>pty_master = 0, pty_slave = 0, lock = OPEN, id_vm = 0, file_head = Some 0,
             file_indirect = NextPtr 0, current_file = Some 0,
             io = \<lparr>io_direction = KVM_EXIT_IO_OUT, io_size = 4, io_port = PARALLEL_PORT,
                    io_data = OPEN\<rparr>\<rparr>,
      heap = [(0, fresh_file)], file_mutex = 0, host = ()\<rparr>"

definition foo_file :: vm_file where
  "foo_file = \<lparr>fd = - 1, flags = O_RDONLY, mode = - 1, cnt = 4, next_p = None,
     ime = map of_char ''foo'' @ replicate 47 0\<rparr>"

definition foo_world :: "unit world" where
  "foo_world = opened_world\<lparr>heap := [(0, foo_file)]\<rparr>"

definition foo_host :: "unit host_ops" where
  "foo_host = fixed_host (\<lambda>p. p = map of_char ''vm_0_foo'')
     (\<lambda>p. if p = map of_char ''foo'' then 3 else - 1) (0, 0)"

definition console_in_world :: "unit world" where
  "console_in_world =
     boot_world\<lparr>vm := (vm boot_world)\<lparr>io :=
       \<lparr>io_direction = KVM_EXIT_IO_IN, io_size = 1, io_port = 0xE9, io_data = 0\<rparr>\<rparr>\<rparr>"



section \<open>Guests sharing the file token\<close>

text \<open>
  Every guest runs \<open>run_guest\<close> on a thread of its own (\<open>start_guest\<close>, line 755) and
  all of them share the semaphore \<open>file_mutex\<close>, initialised to 1 in \<open>main\<close>
  (line 839). The semaphore is touched by two statement pairs only:
  \<open>sem_wait(&file_mutex); vm->lock = operation;\<close> in \<open>start_file_operation\<close>
  (lines 404-405) and \<open>sem_post(&file_mutex); vm->lock = 0;\<close> in
  \<open>end_file_operation\<close> (lines 426-427). A thread is either outside these pairs
  (\<open>Running\<close>), between the two statements of the first (\<open>InStart\<close>, remembering the
  operation code it is about to store) or between the two statements of the second
  (\<open>InEnd\<close>).
\<close>

datatype pc = Running | InStart c_int | InEnd

record thread =
  t_lock :: c_int
  t_pc :: pc

text \<open>The permits left on \<open>file_mutex\<close> and the guests, in creation order.\<close>

record sys =
  mutex :: nat
  threads :: "thread list"

text \<open>
  One step of one thread. \<open>handle_file\<close> enters \<open>start_file_operation\<close> only with
  \<open>lock == 0\<close> (lines 613-614) and \<open>end_file_operation\<close> only with
  \<open>lock != 0\<close> (lines 615-618 and, through \<open>opened_file_op_send_fd\<close>, 632-633);
  \<open>sem_wait\<close> returns only when a permit is left. A step that the code cannot take
  is \<open>None\<close>.
\<close>

datatype action = SemWait nat c_int | SetLock nat | SemPost nat | ClearLock nat

definition set_thread :: "sys \<Rightarrow> nat \<Rightarrow> thread \<Rightarrow> sys" where
  "set_thread s t th = s\<lparr>threads := (threads s)[t := th]\<rparr>"

fun fire :: "action \<Rightarrow> sys \<Rightarrow> sys option" where
  "fire (SemWait t operation) s =
     (if t < length (threads s) \<and> t_pc (threads s ! t) = Running
         \<and> t_lock (threads s ! t) = 0 \<and> 0 < mutex s
      then Some (set_thread (s\<lparr>mutex := mutex s - 1\<rparr>) t
                   ((threads s ! t)\<lparr>t_pc := InStart operation\<rparr>))
      else None)"
| "fire (SetLock t) s =
     (if t < length (threads s)
      then (case t_pc (threads s ! t) of
              InStart operation \<Rightarrow>
                Some (set_thread s t ((threads s ! t)\<lparr>t_lock := operation, t_pc := Running\<rparr>))
            | _ \<Rightarrow> None)
      else None)"
| "fire (SemPost t) s =
     (if t < length (threads s) \<and> t_pc (threads s ! t) = Running
         \<and> t_lock (threads s ! t) \<noteq> 0
      then Some (set_thread (s\<lparr>mutex := mutex s + 1\<rparr>) t ((threads s ! t)\<lparr>t_pc := InEnd\<rparr>))
      else None)"
| "fire (ClearLock t) s =
     (if t < length (threads s) \<and> t_pc (threads s ! t) = InEnd
      then Some (set_thread s t ((threads s ! t)\<lparr>t_lock := 0, t_pc := Running\<rparr>))
      else None)"

fun fire_all :: "action list \<Rightarrow> sys \<Rightarrow> sys option" where
  "fire_all [] s = Some s"
| "fire_all (a # as) s = (case fire a s of None \<Rightarrow> None | Some s' \<Rightarrow> fire_all as s')"

text \<open>\<open>main\<close> after \<open>sem_init\<close>, with \<open>n\<close> guests created by \<open>init_guest\<close> (line 783).\<close>

definition init_sys :: "nat \<Rightarrow> sys" where
  "init_sys n = \<lparr>mutex = 1, threads = replicate n \<lparr>t_lock = 0, t_pc = Running\<rparr>\<rparr>"

text \<open>
  A guest is inside the section that the permit protects from the return of
  \<open>sem_wait\<close> up to its \<open>sem_post\<close>: it is about to store its operation code, or it has
  stored a non-zero one and has not yet posted.
\<close>

definition in_critical_section :: "thread \<Rightarrow> bool" where
  "in_critical_section th =
     (case t_pc th of Running \<Rightarrow> t_lock th \<noteq> 0 | InStart operation \<Rightarrow> True | InEnd \<Rightarrow> False)"

text \<open>The specification's wording: at most one guest has \<open>file_lock\<close> distinct from IDLE.\<close>

definition spec_mutual_exclusion :: "sys \<Rightarrow> bool" where
  "spec_mutual_exclusion s = (length (filter (\<lambda>th. t_lock th \<noteq> 0) (threads s)) \<le> 1)"

text \<open>The permits left and the guests inside the section total at most one.\<close>

definition token_invariant :: "sys \<Rightarrow> bool" where
  "token_invariant s = (mutex s + length (filter in_critical_section (threads s)) \<le> 1)"

chapter \<open>Results\<close>

section \<open>Results: faults\<close>

lemma fbind_Inr [simp]: "fbind (Inr x) f = f x"
  by (simp add: fbind_def)

lemma fbind_Inl [simp]: "fbind (Inl e) f = Inl e"
  by (simp add: fbind_def)

lemma fbind_eq_Inr: "(fbind m f = Inr y) = (\<exists>x. m = Inr x \<and> f x = Inr y)"
  by (cases m) simp_all

section \<open>Results: hypervisor handle\<close>

text \<open>
  C9. When \<open>/dev/kvm\<close> opens and the run-region-size query fails, the claim wants
  failure returned with the descriptor released. The nivoA version does that; the nivoC
  version returns \<open>-1\<close> with the descriptor still open. On success both versions store
  the handle and the size. The failing input below is \<open>open\<close> returning 3 and the query
  returning \<open>-1\<close>, with no descriptor open before.
\<close>

theorem init_hypervisor_leaks_kvm_fd:
  "init_hypervisor \<lparr>open_kvm = 3, mmap_size_query = - 1\<rparr> \<lparr>kvm_fd = 0, kvm_run_mmap_size = 0\<rparr> {}
     = (- 1, \<lparr>kvm_fd = 3, kvm_run_mmap_size = - 1\<rparr>, {3})
   \<and> init_hypervisor_nivoA \<lparr>open_kvm = 3, mmap_size_query = - 1\<rparr> \<lparr>kvm_fd = 0, kvm_run_mmap_size = 0\<rparr> {}
     = (- 1, \<lparr>kvm_fd = 3, kvm_run_mmap_size = - 1\<rparr>, {})"
  by (simp add: init_hypervisor_def init_hypervisor_nivoA_def sys_open_fds_def
      sys_close_fds_def word_sless_alt)

section \<open>Results: long-mode bootstrap\<close>

lemma of_nat_less_u64:
  "i < 2 ^ 64 \<Longrightarrow> ((of_nat i :: u64) < b) = (i < unat b)"
  by (simp add: word_less_nat_alt unat_of_nat take_bit_nat_eq_self)

lemma mb2_loop_result:
  assumes B: "unat (mem_size div SIZE2MB - 1) \<le> INT_MAX"
    and i: "i \<le> unat (mem_size div SIZE2MB - 1)"
    and inb: "\<forall>k<unat (mem_size div SIZE2MB - 1). unat pd_addr + 8 * k + 8 \<le> unat mem_size"
  shows "\<exists>mem'. mb2_loop mem_size pd_addr i pa mem = Inr mem'
           \<and> (\<forall>k. i \<le> k \<and> k < unat (mem_size div SIZE2MB - 1) \<longrightarrow>
                  mem' (unat pd_addr + 8 * k) =
                    (PDE64_PRESENT OR PDE64_RW OR PDE64_USER OR PDE64_PS
                       OR (pa + of_nat (k - i) * SIZE2MB)))
           \<and> (\<forall>a. (\<forall>k. i \<le> k \<and> k < unat (mem_size div SIZE2MB - 1) \<longrightarrow>
                       a \<noteq> unat pd_addr + 8 * k) \<longrightarrow> mem' a = mem a)"
  using i
proof (induction "unat (mem_size div SIZE2MB - 1) - i" arbitrary: i pa mem)
  case 0
  then have "\<not> (of_nat i :: u64) < mem_size div SIZE2MB - 1"
    using B by (simp add: of_nat_less_u64 INT_MAX_def)
  then show ?case
    using 0 by (subst mb2_loop.simps) auto
next
  case (Suc d)
  let ?B = "unat (mem_size div SIZE2MB - 1)"
  let ?F = "\<lambda>x. PDE64_PRESENT OR PDE64_RW OR PDE64_USER OR PDE64_PS OR x"
  from Suc have lt: "i < ?B" by simp
  with B have i_small: "i < INT_MAX" by simp
  then have cond: "(of_nat i :: u64) < mem_size div SIZE2MB - 1"
    using lt by (simp add: of_nat_less_u64 INT_MAX_def)
  from inb lt have st: "store64 mem_size mem (unat pd_addr + 8 * i) (?F pa)
        = Inr (mem(unat pd_addr + 8 * i := ?F pa))"
    by (simp add: store64_def)
  have d: "d = ?B - (i + 1)" using Suc by simp
  have le: "i + 1 \<le> ?B" using lt by simp
  from Suc.hyps(1)[OF d le, of "pa + SIZE2MB" "mem(unat pd_addr + 8 * i := ?F pa)"]
  obtain mem' where r: "mb2_loop mem_size pd_addr (i + 1) (pa + SIZE2MB)
        (mem(unat pd_addr + 8 * i := ?F pa)) = Inr mem'"
    and v: "\<forall>k. i + 1 \<le> k \<and> k < ?B \<longrightarrow>
              mem' (unat pd_addr + 8 * k) = ?F (pa + SIZE2MB + of_nat (k - (i + 1)) * SIZE2MB)"
    and f: "\<forall>a. (\<forall>k. i + 1 \<le> k \<and> k < ?B \<longrightarrow> a \<noteq> unat pd_addr + 8 * k) \<longrightarrow>
              mem' a = (mem(unat pd_addr + 8 * i := ?F pa)) a"
    by blast
  have res: "mb2_loop mem_size pd_addr i pa mem = Inr mem'"
    using cond st r i_small by (subst mb2_loop.simps) (simp add: fbind_def)
  have vals: "mem' (unat pd_addr + 8 * k) = ?F (pa + of_nat (k - i) * SIZE2MB)"
    if k: "i \<le> k \<and> k < ?B" for k
  proof (cases "k = i")
    case True
    then show ?thesis using f by simp
  next
    case False
    with k have k1: "i + 1 \<le> k \<and> k < ?B" by simp
    then have ki: "k - i = Suc (k - (i + 1))" by arith
    have eq: "pa + of_nat (k - i) * SIZE2MB = pa + SIZE2MB + of_nat (k - (i + 1)) * SIZE2MB"
      unfolding ki by (simp only: of_nat_Suc) (simp add: algebra_simps)
    from v k1 have "mem' (unat pd_addr + 8 * k)
        = ?F (pa + SIZE2MB + of_nat (k - (i + 1)) * SIZE2MB)"
      by blast
    then show ?thesis by (simp only: eq)
  qed
  have frame: "mem' a = mem a"
    if a: "\<forall>k. i \<le> k \<and> k < ?B \<longrightarrow> a \<noteq> unat pd_addr + 8 * k" for a
  proof -
    from a lt have "a \<noteq> unat pd_addr + 8 * i" by simp
    moreover from a have "\<forall>k. i + 1 \<le> k \<and> k < ?B \<longrightarrow> a \<noteq> unat pd_addr + 8 * k" by simp
    ultimately show ?thesis using f by simp
  qed
  from res vals frame show ?case by blast
qed


lemma unat_SIZE2MB: "unat SIZE2MB = 2097152"
  by (simp add: SIZE2MB_def)

lemma unat_div_SIZE2MB: "unat (mem_size div SIZE2MB) = unat mem_size div 2097152"
  by (simp add: unat_div unat_SIZE2MB)

lemma unat_bound_MB2:
  assumes "2097152 \<le> unat mem_size"
  shows "unat (mem_size div SIZE2MB - 1) = unat mem_size div 2097152 - 1"
proof -
  have "0 < unat mem_size div 2097152" using assms by (simp add: div_greater_zero_iff)
  then have "mem_size div SIZE2MB \<noteq> 0"
    by (metis unat_div_SIZE2MB unat_0 less_numeral_extra(3))
  then show ?thesis by (simp add: unat_minus_one unat_div_SIZE2MB)
qed

text \<open>
  C2. With 2 MiB pages, for every memory size that is a positive multiple of 2 MiB (and
  whose number of 2 MiB units fits the \<open>int\<close> loop counter), when both register
  ioctls succeed, \<open>setup_long_mode\<close> returns \<open>0x200000\<close>, has written
  \<open>PD[i] = PRESENT | RW | USER | PS | (0x200000 + i * 2 MiB)\<close> for every
  \<open>i < mem_size / 2 MiB - 1\<close>, and has left every further PD slot as it was.
\<close>

theorem setup_long_mode_MB2:
  assumes ok: "get_sregs_ok vc" "set_sregs_ok vc"
    and pos: "mem_size \<noteq> 0"
    and mult: "unat SIZE2MB dvd unat mem_size"
    and rng: "unat mem_size div unat SIZE2MB - 1 \<le> INT_MAX"
  shows "\<exists>mem' vc'. setup_long_mode vc mem mem_size MB2 = Inr (0x200000, mem', vc')
      \<and> (\<forall>i. i < unat mem_size div unat SIZE2MB - 1 \<longrightarrow>
             mem' (0x2000 + 8 * i) =
               (PDE64_PRESENT OR PDE64_RW OR PDE64_USER OR PDE64_PS
                  OR (0x200000 + of_nat i * SIZE2MB)))
      \<and> (\<forall>i. unat mem_size div unat SIZE2MB - 1 \<le> i \<longrightarrow>
             mem' (0x2000 + 8 * i) = mem (0x2000 + 8 * i))"
proof -
  let ?n = "unat mem_size div 2097152"
  from pos have "0 < unat mem_size" by (simp add: unat_gt_0)
  with mult have big: "2097152 \<le> unat mem_size"
    by (auto simp: unat_SIZE2MB dest: dvd_imp_le)
  from mult have ms: "unat mem_size = ?n * 2097152" by (simp add: unat_SIZE2MB)
  have B: "unat (mem_size div SIZE2MB - 1) = ?n - 1" by (rule unat_bound_MB2[OF big])
  let ?m1 = "mem(0 := PDE64_PRESENT OR PDE64_RW OR PDE64_USER OR 0x1000)"
  let ?m2 = "?m1(0x1000 := PDE64_PRESENT OR PDE64_RW OR PDE64_USER OR 0x2000)"
  have s1: "store64 mem_size mem (unat (0::u64)) (PDE64_PRESENT OR PDE64_RW OR PDE64_USER OR 0x1000)
      = Inr ?m1"
    using big by (simp add: store64_def)
  have s2: "store64 mem_size ?m1 (unat (0x1000::u64)) (PDE64_PRESENT OR PDE64_RW OR PDE64_USER OR 0x2000)
      = Inr ?m2"
    using big by (simp add: store64_def)
  have page: "((0x3000::u64) div SIZE2MB + 1) * SIZE2MB = 0x200000"
    by (simp add: SIZE2MB_def)
  have inb: "\<forall>k<unat (mem_size div SIZE2MB - 1). unat (0x2000::u64) + 8 * k + 8 \<le> unat mem_size"
    unfolding B using ms by auto
  have B': "unat (mem_size div SIZE2MB - 1) \<le> INT_MAX"
    using rng by (simp add: B unat_SIZE2MB)
  from mb2_loop_result[OF B' _ inb, of 0 "0x200000" ?m2]
  obtain mem' where r: "mb2_loop mem_size 0x2000 0 0x200000 ?m2 = Inr mem'"
    and v: "\<forall>k. 0 \<le> k \<and> k < unat (mem_size div SIZE2MB - 1) \<longrightarrow>
              mem' (unat (0x2000::u64) + 8 * k) =
                (PDE64_PRESENT OR PDE64_RW OR PDE64_USER OR PDE64_PS
                   OR (0x200000 + of_nat (k - 0) * SIZE2MB))"
    and f: "\<forall>a. (\<forall>k. 0 \<le> k \<and> k < unat (mem_size div SIZE2MB - 1) \<longrightarrow>
                a \<noteq> unat (0x2000::u64) + 8 * k) \<longrightarrow> mem' a = ?m2 a"
    by blast
  have res: "setup_long_mode vc mem mem_size MB2 =
      Inr (0x200000, mem', vc\<lparr>vcpu_sregs := setup_64bit_code_segment
         ((vcpu_sregs vc)\<lparr>cr3 := 0, cr4 := CR4_PAE, cr0 := CR0_PE OR CR0_PG,
            efer := EFER_LMA OR EFER_LME\<rparr>)\<rparr>)"
    using ok s1 s2 r by (simp add: setup_long_mode_def fbind_def page Let_def)
  have vals: "mem' (0x2000 + 8 * i) =
               (PDE64_PRESENT OR PDE64_RW OR PDE64_USER OR PDE64_PS
                  OR (0x200000 + of_nat i * SIZE2MB))"
    if "i < unat mem_size div unat SIZE2MB - 1" for i
    using v that by (simp add: B unat_SIZE2MB)
  have frame: "mem' (0x2000 + 8 * i) = mem (0x2000 + 8 * i)"
    if "unat mem_size div unat SIZE2MB - 1 \<le> i" for i
  proof -
    have "\<forall>k. 0 \<le> k \<and> k < unat (mem_size div SIZE2MB - 1) \<longrightarrow>
                0x2000 + 8 * i \<noteq> unat (0x2000::u64) + 8 * k"
      using that by (simp add: B unat_SIZE2MB)
    with f have "mem' (0x2000 + 8 * i) = ?m2 (0x2000 + 8 * i)" by blast
    then show ?thesis by simp
  qed
  from res vals frame show ?thesis by blast
qed

theorem setup_long_mode_MB2_witness:
  "(case setup_long_mode vc0 zero_mem 0x400000 MB2 of
      Inl x \<Rightarrow> False
    | Inr (r, m, v) \<Rightarrow> r = 0x200000 \<and> m 0x2000 = 0x200087 \<and> m 0x2008 = 0)"
proof -
  have h: "get_sregs_ok vc0" "set_sregs_ok vc0" "(0x400000 :: u64) \<noteq> 0"
    "unat SIZE2MB dvd unat (0x400000 :: u64)"
    "unat (0x400000 :: u64) div unat SIZE2MB - 1 \<le> INT_MAX"
    by (simp_all add: vc0_def SIZE2MB_def INT_MAX_def)
  from setup_long_mode_MB2[OF h, of zero_mem]
  obtain mem' vc' where r: "setup_long_mode vc0 zero_mem 0x400000 MB2 = Inr (0x200000, mem', vc')"
    and v: "\<forall>i. i < unat (0x400000 :: u64) div unat SIZE2MB - 1 \<longrightarrow>
             mem' (0x2000 + 8 * i) =
               (PDE64_PRESENT OR PDE64_RW OR PDE64_USER OR PDE64_PS
                  OR (0x200000 + of_nat i * SIZE2MB))"
    and f: "\<forall>i. unat (0x400000 :: u64) div unat SIZE2MB - 1 \<le> i \<longrightarrow>
             mem' (0x2000 + 8 * i) = zero_mem (0x2000 + 8 * i)"
    by blast
  from v[rule_format, of 0] have "mem' 0x2000 = 0x200087"
    by (simp add: SIZE2MB_def PDE64_PRESENT_def PDE64_RW_def PDE64_USER_def PDE64_PS_def)
  moreover from f[rule_format, of 1] have "mem' 0x2008 = 0"
    by (simp add: SIZE2MB_def zero_mem_def)
  ultimately show ?thesis using r by simp
qed

lemma unat_page_at: "y < 2 ^ 51 \<Longrightarrow> unat (page_at y) = 4096 * y"
  unfolding page_at_def by (simp only: unat_of_nat) simp

lemma page_at_less:
  "p < 2 ^ 51 \<Longrightarrow> q < 2 ^ 51 \<Longrightarrow> (page_at q < page_at p) = (q < p)"
  by (simp add: word_less_nat_alt unat_page_at)

lemma page_at_Suc: "page_at p + 0x1000 = page_at (p + 1)"
  by (simp add: page_at_def)

lemma pde_flags: "PDE64_PRESENT OR PDE64_RW OR PDE64_USER = mask 3"
  by (simp add: PDE64_PRESENT_def PDE64_RW_def PDE64_USER_def mask_eq_exp_minus_1)

lemma pt_base:
  "((PDE64_PRESENT OR PDE64_RW OR PDE64_USER OR page_at y) AND NOT 0xFFF) = page_at y"
proof -
  have m: "(0xFFF :: u64) = mask 12" by (simp add: mask_eq_exp_minus_1)
  have p: "page_at y = push_bit 12 (of_nat y)"
    by (simp add: push_bit_eq_mult page_at_def)
  have a: "PDE64_PRESENT OR PDE64_RW OR PDE64_USER OR page_at y
      = mask 3 OR page_at y"
    by (simp only: pde_flags[symmetric] or.assoc)
  show ?thesis
    unfolding a unfolding m p
    by (rule bit_word_eqI) (auto simp add: bit_simps)
qed

lemma pt_loop_result:
  assumes q: "mem_size = page_at q" "q < 2 ^ 50" and p: "p \<le> q + 1" and j: "j \<le> 512"
    and inb: "p \<le> q \<longrightarrow> pt + 4096 \<le> 4096 * q"
  shows "\<exists>mem'. pt_loop mem_size pt j (page_at p) mem
              = Inr (page_at (p + min (512 - j) (q + 1 - p)), mem')
           \<and> (\<forall>k. j \<le> k \<and> k < 512 \<and> p + (k - j) \<le> q \<longrightarrow>
                  mem' (pt + 8 * k) =
                    (page_at (p + (k - j)) OR PDE64_PRESENT OR PDE64_RW OR PDE64_USER))
           \<and> (\<forall>a. (\<forall>k. j \<le> k \<and> k < 512 \<and> p + (k - j) \<le> q \<longrightarrow> a \<noteq> pt + 8 * k)
                  \<longrightarrow> mem' a = mem a)"
  using p j inb
proof (induction "512 - j" arbitrary: j p mem)
  case 0
  then have "j = 512" by simp
  then show ?case by (subst pt_loop.simps) auto
next
  case (Suc d)
  then have jlt: "j < 512" by simp
  show ?case
  proof (cases "q < p")
    case True
    then have "mem_size < page_at p" using q Suc.prems by (simp add: page_at_less)
    with jlt True show ?thesis by (subst pt_loop.simps) simp
  next
    case False
    then have pq: "p \<le> q" by simp
    then have nlt: "\<not> mem_size < page_at p" using q Suc.prems by (simp add: page_at_less)
    let ?v = "page_at p OR PDE64_PRESENT OR PDE64_RW OR PDE64_USER"
    let ?m1 = "mem(pt + 8 * j := ?v)"
    from Suc.prems(3) pq jlt q have st: "store64 mem_size mem (pt + 8 * j) ?v = Inr ?m1"
      by (simp add: store64_def unat_page_at)
    have d: "d = 512 - (j + 1)" using Suc.hyps(2) by simp
    have p1: "p + 1 \<le> q + 1" using pq by simp
    have j1: "j + 1 \<le> 512" using jlt by simp
    have inb1: "p + 1 \<le> q \<longrightarrow> pt + 4096 \<le> 4096 * q" using Suc.prems(3) pq by simp
    from Suc.hyps(1)[OF d p1 j1 inb1, of ?m1]
    obtain mem' where r: "pt_loop mem_size pt (j + 1) (page_at (p + 1)) ?m1
          = Inr (page_at (p + 1 + min (512 - (j + 1)) (q + 1 - (p + 1))), mem')"
      and v: "\<forall>k. j + 1 \<le> k \<and> k < 512 \<and> p + 1 + (k - (j + 1)) \<le> q \<longrightarrow>
                mem' (pt + 8 * k) =
                  (page_at (p + 1 + (k - (j + 1))) OR PDE64_PRESENT OR PDE64_RW OR PDE64_USER)"
      and f: "\<forall>a. (\<forall>k. j + 1 \<le> k \<and> k < 512 \<and> p + 1 + (k - (j + 1)) \<le> q \<longrightarrow>
                a \<noteq> pt + 8 * k) \<longrightarrow> mem' a = ?m1 a"
      by blast
    have pe: "p + 1 + min (512 - (j + 1)) (q + 1 - (p + 1)) = p + min (512 - j) (q + 1 - p)"
      using jlt pq by arith
    from r have r': "pt_loop mem_size pt (j + 1) (page_at (p + 1)) ?m1
          = Inr (page_at (p + min (512 - j) (q + 1 - p)), mem')"
      by (simp only: pe)
    have res: "pt_loop mem_size pt j (page_at p) mem
        = Inr (page_at (p + min (512 - j) (q + 1 - p)), mem')"
      using jlt nlt st r' by (subst pt_loop.simps) (simp add: page_at_Suc)
    have vals: "mem' (pt + 8 * k) =
        (page_at (p + (k - j)) OR PDE64_PRESENT OR PDE64_RW OR PDE64_USER)"
      if k: "j \<le> k \<and> k < 512 \<and> p + (k - j) \<le> q" for k
    proof (cases "k = j")
      case True
      then show ?thesis using f by simp
    next
      case False
      with k have k1: "j + 1 \<le> k \<and> k < 512 \<and> p + 1 + (k - (j + 1)) \<le> q" by arith
      from k False have "p + 1 + (k - (j + 1)) = p + (k - j)" by arith
      with v k1 show ?thesis by metis
    qed
    have frame: "mem' a = mem a"
      if a: "\<forall>k. j \<le> k \<and> k < 512 \<and> p + (k - j) \<le> q \<longrightarrow> a \<noteq> pt + 8 * k" for a
    proof -
      from a jlt pq have "a \<noteq> pt + 8 * j" by simp
      moreover have "\<forall>k. j + 1 \<le> k \<and> k < 512 \<and> p + 1 + (k - (j + 1)) \<le> q \<longrightarrow>
          a \<noteq> pt + 8 * k"
      proof (intro allI impI)
        fix k assume k: "j + 1 \<le> k \<and> k < 512 \<and> p + 1 + (k - (j + 1)) \<le> q"
        then have "j \<le> k \<and> k < 512 \<and> p + (k - j) \<le> q" by arith
        with a show "a \<noteq> pt + 8 * k" by blast
      qed
      ultimately show ?thesis using f by simp
    qed
    from res vals frame show ?thesis by blast
  qed
qed


lemma kb4_pd_loop_result:
  assumes B: "unat (mem_size div SIZE2MB) \<le> INT_MAX"
    and i: "i \<le> unat (mem_size div SIZE2MB)"
    and inb: "\<forall>k<unat (mem_size div SIZE2MB). unat pd_addr + 8 * k + 8 \<le> unat mem_size"
  shows "\<exists>mem'. kb4_pd_loop mem_size pd_addr i (page_at p) mem
              = Inr (page_at (p + (unat (mem_size div SIZE2MB) - i)), mem')
           \<and> (\<forall>k. i \<le> k \<and> k < unat (mem_size div SIZE2MB) \<longrightarrow>
                  mem' (unat pd_addr + 8 * k) =
                    (PDE64_PRESENT OR PDE64_RW OR PDE64_USER OR page_at (p + (k - i))))
           \<and> (\<forall>a. (\<forall>k. i \<le> k \<and> k < unat (mem_size div SIZE2MB) \<longrightarrow>
                       a \<noteq> unat pd_addr + 8 * k) \<longrightarrow> mem' a = mem a)"
  using i
proof (induction "unat (mem_size div SIZE2MB) - i" arbitrary: i p mem)
  case 0
  then have "\<not> (of_nat i :: u64) < mem_size div SIZE2MB"
    using B by (simp add: of_nat_less_u64 INT_MAX_def)
  then show ?case
    using 0 by (subst kb4_pd_loop.simps) auto
next
  case (Suc d)
  let ?B = "unat (mem_size div SIZE2MB)"
  let ?F = "\<lambda>x. PDE64_PRESENT OR PDE64_RW OR PDE64_USER OR x"
  from Suc have lt: "i < ?B" by simp
  with B have i_small: "i < INT_MAX" by simp
  then have cond: "(of_nat i :: u64) < mem_size div SIZE2MB"
    using lt by (simp add: of_nat_less_u64 INT_MAX_def)
  let ?m1 = "mem(unat pd_addr + 8 * i := ?F (page_at p))"
  from inb lt have st: "store64 mem_size mem (unat pd_addr + 8 * i) (?F (page_at p)) = Inr ?m1"
    by (simp add: store64_def)
  have d: "d = ?B - (i + 1)" using Suc by simp
  have le: "i + 1 \<le> ?B" using lt by simp
  from Suc.hyps(1)[OF d le, of "p + 1" ?m1]
  obtain mem' where r: "kb4_pd_loop mem_size pd_addr (i + 1) (page_at (p + 1)) ?m1
        = Inr (page_at (p + 1 + (?B - (i + 1))), mem')"
    and v: "\<forall>k. i + 1 \<le> k \<and> k < ?B \<longrightarrow>
              mem' (unat pd_addr + 8 * k) = ?F (page_at (p + 1 + (k - (i + 1))))"
    and f: "\<forall>a. (\<forall>k. i + 1 \<le> k \<and> k < ?B \<longrightarrow> a \<noteq> unat pd_addr + 8 * k) \<longrightarrow>
              mem' a = ?m1 a"
    by blast
  have pe: "p + 1 + (?B - (i + 1)) = p + (?B - i)" using lt by arith
  from r have r': "kb4_pd_loop mem_size pd_addr (i + 1) (page_at (p + 1)) ?m1
        = Inr (page_at (p + (?B - i)), mem')"
    by (simp only: pe)
  have res: "kb4_pd_loop mem_size pd_addr i (page_at p) mem = Inr (page_at (p + (?B - i)), mem')"
    using cond st r' i_small by (subst kb4_pd_loop.simps) (simp add: page_at_Suc)
  have vals: "mem' (unat pd_addr + 8 * k) = ?F (page_at (p + (k - i)))"
    if k: "i \<le> k \<and> k < ?B" for k
  proof (cases "k = i")
    case True
    then show ?thesis using f by simp
  next
    case False
    with k have k1: "i + 1 \<le> k \<and> k < ?B" by simp
    then have "p + 1 + (k - (i + 1)) = p + (k - i)" by arith
    with v k1 show ?thesis by metis
  qed
  have frame: "mem' a = mem a"
    if a: "\<forall>k. i \<le> k \<and> k < ?B \<longrightarrow> a \<noteq> unat pd_addr + 8 * k" for a
  proof -
    from a lt have "a \<noteq> unat pd_addr + 8 * i" by simp
    moreover from a have "\<forall>k. i + 1 \<le> k \<and> k < ?B \<longrightarrow> a \<noteq> unat pd_addr + 8 * k" by simp
    ultimately show ?thesis using f by simp
  qed
  from res vals frame show ?case by blast
qed


lemma pt_addr_distinct:
  "i < i' \<Longrightarrow> j < 512 \<Longrightarrow> j' < 512 \<Longrightarrow>
     4096 * (3 + i) + 8 * j \<noteq> 4096 * (3 + i') + 8 * (j' :: nat)"
proof -
  assume a: "i < i'" and b: "j < 512"
  from a have "Suc i \<le> i'" by simp
  then have "4096 * (3 + Suc i) \<le> 4096 * (3 + i')" by (intro mult_le_mono2 add_left_mono)
  moreover from b have "8 * j < 4096" by simp
  ultimately have "4096 * (3 + i) + 8 * j < 4096 * (3 + i')" by simp
  then show ?thesis by simp
qed

lemma min_page_step:
  "min (l + 512 * i) (q + 1) + min (512 - 0) (q + 1 - min (l + 512 * i) (q + 1))
     = min (l + 512 * (i + 1)) (q + (1::nat))"
  by arith

lemma kb4_pt_loop_prefix:
  assumes q: "mem_size = page_at q" "q < 2 ^ 50"
    and B: "N \<le> unat (mem_size div SIZE2MB)"
    and N: "N \<le> 512" "N + 3 \<le> q"
    and i: "i \<le> N"
    and pd: "\<forall>k. i \<le> k \<and> k < N \<longrightarrow>
               mem (0x2000 + 8 * k) = (PDE64_PRESENT OR PDE64_RW OR PDE64_USER OR page_at (3 + k))"
  shows "\<exists>mem'. kb4_pt_loop mem_size 0x2000 i (page_at (min (l + 512 * i) (q + 1))) mem
              = kb4_pt_loop mem_size 0x2000 N (page_at (min (l + 512 * N) (q + 1))) mem'
           \<and> (\<forall>i' j. i \<le> i' \<and> i' < N \<and> j < 512 \<and> l + 512 * i' + j \<le> q \<longrightarrow>
                  mem' (4096 * (3 + i') + 8 * j) =
                    (page_at (l + 512 * i' + j) OR PDE64_PRESENT OR PDE64_RW OR PDE64_USER))
           \<and> (\<forall>a. (\<forall>i' j. i \<le> i' \<and> i' < N \<and> j < 512 \<and> l + 512 * i' + j \<le> q \<longrightarrow>
                       a \<noteq> 4096 * (3 + i') + 8 * j) \<longrightarrow> mem' a = mem a)"
  using i pd
proof (induction "N - i" arbitrary: i mem)
  case 0
  then have "i = N" by simp
  then show ?case by auto
next
  case (Suc d)
  let ?p = "min (l + 512 * i) (q + 1)"
  let ?pt = "4096 * (3 + i)"
  from Suc.hyps(2) have lt: "i < N" by simp
  with N have i512: "i < 512" by simp
  have cond: "(of_nat i :: u64) < mem_size div SIZE2MB"
    using lt B i512 by (simp add: of_nat_less_u64)
  have msz: "unat mem_size = 4096 * q" using q by (simp add: unat_page_at)
  have ld: "load64 mem_size mem (unat (0x2000 :: u64) + 8 * i)
      = Inr (PDE64_PRESENT OR PDE64_RW OR PDE64_USER OR page_at (3 + i))"
    using Suc.prems(2) lt i512 N msz by (simp add: load64_def)
  have base: "unat ((PDE64_PRESENT OR PDE64_RW OR PDE64_USER OR page_at (3 + i)) AND NOT 0xFFF)
      = ?pt"
    using i512 by (simp only: pt_base) (simp add: unat_page_at)
  have ple: "?p \<le> q + 1" by simp
  have inb: "?p \<le> q \<longrightarrow> ?pt + 4096 \<le> 4096 * q" using lt N by simp
  from pt_loop_result[OF q ple _ inb, of 0 mem]
  obtain m1 where pl: "pt_loop mem_size ?pt 0 (page_at ?p) mem
        = Inr (page_at (?p + min (512 - 0) (q + 1 - ?p)), m1)"
    and v1: "\<forall>k. 0 \<le> k \<and> k < 512 \<and> ?p + (k - 0) \<le> q \<longrightarrow>
               m1 (?pt + 8 * k) =
                 (page_at (?p + (k - 0)) OR PDE64_PRESENT OR PDE64_RW OR PDE64_USER)"
    and f1: "\<forall>a. (\<forall>k. 0 \<le> k \<and> k < 512 \<and> ?p + (k - 0) \<le> q \<longrightarrow> a \<noteq> ?pt + 8 * k)
               \<longrightarrow> m1 a = mem a"
    by auto
  have pe: "?p + min (512 - 0) (q + 1 - ?p) = min (l + 512 * (i + 1)) (q + 1)"
    by (rule min_page_step)
  from pl have pl': "pt_loop mem_size ?pt 0 (page_at ?p) mem
        = Inr (page_at (min (l + 512 * (i + 1)) (q + 1)), m1)"
    by (simp only: pe)
  have nomax: "\<not> INT_MAX \<le> i" using i512 by (simp add: INT_MAX_def)
  have step: "kb4_pt_loop mem_size 0x2000 i (page_at ?p) mem
      = kb4_pt_loop mem_size 0x2000 (i + 1) (page_at (min (l + 512 * (i + 1)) (q + 1))) m1"
    by (subst kb4_pt_loop.simps) (simp only: cond ld base pl' nomax fbind_Inr Let_def if_True
        if_False prod.case)
  have d: "d = N - (i + 1)" using Suc.hyps(2) by simp
  have le: "i + 1 \<le> N" using lt by simp
  have pd1: "\<forall>k. i + 1 \<le> k \<and> k < N \<longrightarrow>
      m1 (0x2000 + 8 * k) = (PDE64_PRESENT OR PDE64_RW OR PDE64_USER OR page_at (3 + k))"
  proof (intro allI impI)
    fix k assume k: "i + 1 \<le> k \<and> k < N"
    with N have "k < 512" by simp
    then have "\<forall>k'. 0 \<le> k' \<and> k' < 512 \<and> ?p + (k' - 0) \<le> q \<longrightarrow>
        0x2000 + 8 * k \<noteq> ?pt + 8 * k'"
      by simp
    with f1 have "m1 (0x2000 + 8 * k) = mem (0x2000 + 8 * k)" by blast
    with Suc.prems(2) k show
      "m1 (0x2000 + 8 * k) = (PDE64_PRESENT OR PDE64_RW OR PDE64_USER OR page_at (3 + k))"
      by simp
  qed
  from Suc.hyps(1)[OF d le pd1]
  obtain mem' where r: "kb4_pt_loop mem_size 0x2000 (i + 1)
          (page_at (min (l + 512 * (i + 1)) (q + 1))) m1
        = kb4_pt_loop mem_size 0x2000 N (page_at (min (l + 512 * N) (q + 1))) mem'"
    and v: "\<forall>i' j. i + 1 \<le> i' \<and> i' < N \<and> j < 512 \<and> l + 512 * i' + j \<le> q \<longrightarrow>
              mem' (4096 * (3 + i') + 8 * j) =
                (page_at (l + 512 * i' + j) OR PDE64_PRESENT OR PDE64_RW OR PDE64_USER)"
    and f: "\<forall>a. (\<forall>i' j. i + 1 \<le> i' \<and> i' < N \<and> j < 512 \<and> l + 512 * i' + j \<le> q \<longrightarrow>
              a \<noteq> 4096 * (3 + i') + 8 * j) \<longrightarrow> mem' a = m1 a"
    by blast
  have res: "kb4_pt_loop mem_size 0x2000 i (page_at ?p) mem
      = kb4_pt_loop mem_size 0x2000 N (page_at (min (l + 512 * N) (q + 1))) mem'"
    using step r by simp
  have vals: "mem' (4096 * (3 + i') + 8 * j) =
      (page_at (l + 512 * i' + j) OR PDE64_PRESENT OR PDE64_RW OR PDE64_USER)"
    if h: "i \<le> i' \<and> i' < N \<and> j < 512 \<and> l + 512 * i' + j \<le> q" for i' j
  proof (cases "i' = i")
    case False
    with h have "i + 1 \<le> i' \<and> i' < N \<and> j < 512 \<and> l + 512 * i' + j \<le> q" by simp
    with v show ?thesis by blast
  next
    case True
    have "\<forall>i'' j''. i + 1 \<le> i'' \<and> i'' < N \<and> j'' < 512 \<and> l + 512 * i'' + j'' \<le> q \<longrightarrow>
        ?pt + 8 * j \<noteq> 4096 * (3 + i'') + 8 * j''"
    proof (intro allI impI)
      fix i'' j'' assume x: "i + 1 \<le> i'' \<and> i'' < N \<and> j'' < 512 \<and> l + 512 * i'' + j'' \<le> q"
      then have "i < i''" by simp
      from pt_addr_distinct[OF this, of j j''] h x
      show "?pt + 8 * j \<noteq> 4096 * (3 + i'') + 8 * j''" by blast
    qed
    with f have a: "mem' (?pt + 8 * j) = m1 (?pt + 8 * j)" by blast
    from h True have pj: "?p = l + 512 * i" "?p + (j - 0) \<le> q" by simp_all
    with v1 h have "m1 (?pt + 8 * j) =
        (page_at (?p + (j - 0)) OR PDE64_PRESENT OR PDE64_RW OR PDE64_USER)"
      by blast
    with a pj True show ?thesis by simp
  qed
  have frame: "mem' a = mem a"
    if a: "\<forall>i' j. i \<le> i' \<and> i' < N \<and> j < 512 \<and> l + 512 * i' + j \<le> q \<longrightarrow>
        a \<noteq> 4096 * (3 + i') + 8 * j" for a
  proof -
    from a have "\<forall>i' j. i + 1 \<le> i' \<and> i' < N \<and> j < 512 \<and> l + 512 * i' + j \<le> q \<longrightarrow>
        a \<noteq> 4096 * (3 + i') + 8 * j"
      by simp
    with f have e1: "mem' a = m1 a" by blast
    have "\<forall>k. 0 \<le> k \<and> k < 512 \<and> ?p + (k - 0) \<le> q \<longrightarrow> a \<noteq> ?pt + 8 * k"
    proof (intro allI impI)
      fix k assume k: "0 \<le> k \<and> k < 512 \<and> ?p + (k - 0) \<le> q"
      then have "l + 512 * i + k \<le> q" by (simp add: min_def split: if_splits)
      with a lt k show "a \<noteq> ?pt + 8 * k" by blast
    qed
    with f1 have "m1 a = mem a" by blast
    with e1 show ?thesis by simp
  qed
  from res vals frame show ?case by blast
qed

lemma kb4_pt_loop_done:
  "\<not> (of_nat i :: u64) < mem_size div SIZE2MB \<Longrightarrow>
     kb4_pt_loop mem_size pd_addr i pa mem = Inr mem"
  by (subst kb4_pt_loop.simps) simp

lemma bit_between_clear:
  fixes w :: u64
  shows "3 \<le> k \<Longrightarrow> k < 12 \<Longrightarrow> (mask 3 OR push_bit 12 w) AND push_bit k 1 = 0"
  by (rule bit_word_eqI) (auto simp add: bit_simps)

lemma pde_ps_clear:
  "(PDE64_PRESENT OR PDE64_RW OR PDE64_USER OR page_at y) AND PDE64_PS = 0"
proof -
  have p: "page_at y = push_bit 12 (of_nat y)"
    by (simp add: push_bit_eq_mult page_at_def)
  have a: "PDE64_PRESENT OR PDE64_RW OR PDE64_USER OR page_at y = mask 3 OR page_at y"
    by (simp only: pde_flags[symmetric] or.assoc)
  show ?thesis
    unfolding a unfolding p PDE64_PS_def by (rule bit_between_clear) simp_all
qed

lemma ucast_of_nat_u64: "(ucast (of_nat x :: u64) :: c_int) = of_nat x"
  by (rule bit_word_eqI) (auto simp add: bit_simps)

lemma mem_size_pages:
  assumes "unat SIZE2MB dvd unat mem_size"
  shows "mem_size = page_at (512 * (unat mem_size div unat SIZE2MB))"
proof -
  from assms have "unat mem_size = 4096 * (512 * (unat mem_size div unat SIZE2MB))"
    by (simp add: unat_SIZE2MB)
  then have "of_nat (unat mem_size) = page_at (512 * (unat mem_size div unat SIZE2MB))"
    unfolding page_at_def by (rule arg_cong)
  then show ?thesis by simp
qed

lemma pt_loop_past_end:
  assumes "mem_size < pa" shows "pt_loop mem_size pt 0 pa mem = Inr (pa, mem)"
  using assms by (subst pt_loop.simps) simp

text \<open>
  C3. With 4 KiB pages, for every memory size that is a positive multiple of 2 MiB with
  \<open>n = mem_size / 2 MiB\<close> at most 512 (the slots of the one page directory), when both
  register ioctls succeed, \<open>setup_long_mode\<close> returns \<open>0x3000 + n * 4 KiB\<close>;
  \<open>PD[i]\<close>, for every \<open>i < n\<close>, is \<open>PRESENT | RW | USER | (0x3000 + i * 4 KiB)\<close>
  with PS clear; slot \<open>j\<close> of page table \<open>i\<close> holds the frame number
  \<open>3 + n + 512 * i + j\<close> flagged \<open>PRESENT | RW | USER\<close> whenever that frame starts
  below \<open>mem_size\<close> (the first frame mapped is the returned load address), and is
  left as it was when the frame starts above \<open>mem_size\<close>.
\<close>

theorem setup_long_mode_KB4:
  assumes ok: "get_sregs_ok vc" "set_sregs_ok vc"
    and pos: "mem_size \<noteq> 0"
    and mult: "unat SIZE2MB dvd unat mem_size"
    and small: "unat mem_size div unat SIZE2MB \<le> 512"
  shows "\<exists>mem' vc'.
      setup_long_mode vc mem mem_size KB4
        = Inr (of_nat (0x3000 + 0x1000 * (unat mem_size div unat SIZE2MB)), mem', vc')
      \<and> (\<forall>i. i < unat mem_size div unat SIZE2MB \<longrightarrow>
             mem' (0x2000 + 8 * i) = (PDE64_PRESENT OR PDE64_RW OR PDE64_USER OR page_at (3 + i))
             \<and> mem' (0x2000 + 8 * i) AND PDE64_PS = 0
             \<and> unat (mem' (0x2000 + 8 * i) AND NOT 0xFFF) = 0x3000 + 0x1000 * i)
      \<and> (\<forall>i j. i < unat mem_size div unat SIZE2MB \<and> j < 512
               \<and> 4096 * (3 + unat mem_size div unat SIZE2MB + 512 * i + j) < unat mem_size \<longrightarrow>
             mem' (0x3000 + 0x1000 * i + 8 * j) =
               (page_at (3 + unat mem_size div unat SIZE2MB + 512 * i + j)
                  OR PDE64_PRESENT OR PDE64_RW OR PDE64_USER))
      \<and> (\<forall>i j. i < unat mem_size div unat SIZE2MB \<and> j < 512
               \<and> unat mem_size < 4096 * (3 + unat mem_size div unat SIZE2MB + 512 * i + j) \<longrightarrow>
             mem' (0x3000 + 0x1000 * i + 8 * j) = mem (0x3000 + 0x1000 * i + 8 * j))"
proof -
  define n where "n = unat mem_size div unat SIZE2MB"
  define q where "q = 512 * n"
  from pos have "0 < unat mem_size" by (simp add: unat_gt_0)
  with mult have big: "2097152 \<le> unat mem_size"
    by (auto simp: unat_SIZE2MB dest: dvd_imp_le)
  then have n1: "1 \<le> n" by (simp add: n_def unat_SIZE2MB div_greater_zero_iff)
  from small have n512: "n \<le> 512" by (simp add: n_def)
  have msq: "mem_size = page_at q" unfolding q_def n_def by (rule mem_size_pages[OF mult])
  have q50: "q < 2 ^ 50" using n512 by (simp add: q_def)
  have um: "unat mem_size = 4096 * q" using msq q50 by (simp add: unat_page_at)
  have Bn: "unat (mem_size div SIZE2MB) = n" by (simp add: unat_div_SIZE2MB n_def unat_SIZE2MB)
  let ?m1 = "mem(0 := PDE64_PRESENT OR PDE64_RW OR PDE64_USER OR 0x1000)"
  let ?m2 = "?m1(0x1000 := PDE64_PRESENT OR PDE64_RW OR PDE64_USER OR 0x2000)"
  have s1: "store64 mem_size mem (unat (0::u64)) (PDE64_PRESENT OR PDE64_RW OR PDE64_USER OR 0x1000)
      = Inr ?m1"
    using big by (simp add: store64_def)
  have s2: "store64 mem_size ?m1 (unat (0x1000::u64)) (PDE64_PRESENT OR PDE64_RW OR PDE64_USER OR 0x2000)
      = Inr ?m2"
    using big by (simp add: store64_def)
  have p3: "(0x3000 :: u64) = page_at 3" by (simp add: page_at_def)
  have Bmax: "unat (mem_size div SIZE2MB) \<le> INT_MAX" using n512 by (simp add: Bn INT_MAX_def)
  have inb: "\<forall>k<unat (mem_size div SIZE2MB). unat (0x2000::u64) + 8 * k + 8 \<le> unat mem_size"
    unfolding Bn using n512 big by auto
  from kb4_pd_loop_result[OF Bmax _ inb, of 0 3 ?m2]
  obtain m3 where pdl: "kb4_pd_loop mem_size 0x2000 0 (page_at 3) ?m2
        = Inr (page_at (3 + (unat (mem_size div SIZE2MB) - 0)), m3)"
    and pdv: "\<forall>k. 0 \<le> k \<and> k < unat (mem_size div SIZE2MB) \<longrightarrow>
        m3 (unat (0x2000::u64) + 8 * k) =
          (PDE64_PRESENT OR PDE64_RW OR PDE64_USER OR page_at (3 + (k - 0)))"
    and pdf: "\<forall>a. (\<forall>k. 0 \<le> k \<and> k < unat (mem_size div SIZE2MB) \<longrightarrow>
        a \<noteq> unat (0x2000::u64) + 8 * k) \<longrightarrow> m3 a = ?m2 a"
    by auto
  have pdv': "\<forall>k. 0 \<le> k \<and> k < n \<longrightarrow>
      m3 (0x2000 + 8 * k) = (PDE64_PRESENT OR PDE64_RW OR PDE64_USER OR page_at (3 + k))"
    using pdv by (simp add: Bn)
  have NB: "n \<le> unat (mem_size div SIZE2MB)" by (simp add: Bn)
  have N3: "n + 3 \<le> q" using n1 by (simp add: q_def)
  from kb4_pt_loop_prefix[OF msq q50 NB n512 N3 _ pdv', of "3 + n"]
  obtain mem' where ptl: "kb4_pt_loop mem_size 0x2000 0 (page_at (min (3 + n + 512 * 0) (q + 1))) m3
        = kb4_pt_loop mem_size 0x2000 n (page_at (min (3 + n + 512 * n) (q + 1))) mem'"
    and ptv: "\<forall>i' j. 0 \<le> i' \<and> i' < n \<and> j < 512 \<and> 3 + n + 512 * i' + j \<le> q \<longrightarrow>
        mem' (4096 * (3 + i') + 8 * j) =
          (page_at (3 + n + 512 * i' + j) OR PDE64_PRESENT OR PDE64_RW OR PDE64_USER)"
    and ptf: "\<forall>a. (\<forall>i' j. 0 \<le> i' \<and> i' < n \<and> j < 512 \<and> 3 + n + 512 * i' + j \<le> q \<longrightarrow>
        a \<noteq> 4096 * (3 + i') + 8 * j) \<longrightarrow> mem' a = m3 a"
    by auto
  have pmin: "min (3 + n + 512 * 0) (q + 1) = 3 + n" using N3 by simp
  have fin: "kb4_pt_loop mem_size 0x2000 n (page_at (min (3 + n + 512 * n) (q + 1))) mem'
      = Inr mem'"
    by (rule kb4_pt_loop_done) (simp add: Bn of_nat_less_u64 n512[THEN le_less_trans])
  have ptl': "kb4_pt_loop mem_size 0x2000 0 (page_at (3 + n)) m3 = Inr mem'"
    using ptl fin by (simp only: pmin)
  have pdl': "kb4_pd_loop mem_size 0x2000 0 0x3000 ?m2 = Inr (page_at (3 + n), m3)"
    using pdl by (simp add: Bn p3)
  have ret: "(ucast (page_at (3 + n)) :: c_int) = of_nat (0x3000 + 0x1000 * n)"
    unfolding page_at_def by (simp only: ucast_of_nat_u64) (simp add: algebra_simps)
  have res: "setup_long_mode vc mem mem_size KB4 =
      Inr (of_nat (0x3000 + 0x1000 * n), mem', vc\<lparr>vcpu_sregs := setup_64bit_code_segment
         ((vcpu_sregs vc)\<lparr>cr3 := 0, cr4 := CR4_PAE, cr0 := CR0_PE OR CR0_PG,
            efer := EFER_LMA OR EFER_LME\<rparr>)\<rparr>)"
    using ok s1 s2 pdl' ptl' by (simp add: setup_long_mode_def Let_def ret)
  have pd_final: "mem' (0x2000 + 8 * i) = (PDE64_PRESENT OR PDE64_RW OR PDE64_USER OR page_at (3 + i))"
    if "i < n" for i
  proof -
    from that n512 have "i < 512" by simp
    then have "\<forall>i' j. 0 \<le> i' \<and> i' < n \<and> j < 512 \<and> 3 + n + 512 * i' + j \<le> q \<longrightarrow>
        0x2000 + 8 * i \<noteq> 4096 * (3 + i') + 8 * j"
      by simp
    with ptf have "mem' (0x2000 + 8 * i) = m3 (0x2000 + 8 * i)" by blast
    with pdv' that show ?thesis by simp
  qed
  have c2: "mem' (0x2000 + 8 * i) = (PDE64_PRESENT OR PDE64_RW OR PDE64_USER OR page_at (3 + i))
      \<and> mem' (0x2000 + 8 * i) AND PDE64_PS = 0
      \<and> unat (mem' (0x2000 + 8 * i) AND NOT 0xFFF) = 0x3000 + 0x1000 * i"
    if "i < n" for i
  proof -
    from that n512 have "3 + i < 2 ^ 51" by simp
    then have "unat (page_at (3 + i)) = 0x3000 + 0x1000 * i" by (simp add: unat_page_at)
    then show ?thesis
      by (simp only: pd_final[OF that] pt_base pde_ps_clear)
  qed
  have c3: "mem' (0x3000 + 0x1000 * i + 8 * j) =
      (page_at (3 + n + 512 * i + j) OR PDE64_PRESENT OR PDE64_RW OR PDE64_USER)"
    if "i < n \<and> j < 512 \<and> 4096 * (3 + n + 512 * i + j) < unat mem_size" for i j
  proof -
    from that have "0 \<le> i \<and> i < n \<and> j < 512 \<and> 3 + n + 512 * i + j \<le> q" by (simp add: um)
    with ptv have "mem' (4096 * (3 + i) + 8 * j) =
        (page_at (3 + n + 512 * i + j) OR PDE64_PRESENT OR PDE64_RW OR PDE64_USER)"
      by blast
    then show ?thesis by (simp add: algebra_simps)
  qed
  have c4: "mem' (0x3000 + 0x1000 * i + 8 * j) = mem (0x3000 + 0x1000 * i + 8 * j)"
    if h: "i < n \<and> j < 512 \<and> unat mem_size < 4096 * (3 + n + 512 * i + j)" for i j
  proof -
    from h have gt: "q < 3 + n + 512 * i + j" by (simp add: um)
    have "\<forall>i' j'. 0 \<le> i' \<and> i' < n \<and> j' < 512 \<and> 3 + n + 512 * i' + j' \<le> q \<longrightarrow>
        4096 * (3 + i) + 8 * j \<noteq> 4096 * (3 + i') + 8 * j'"
    proof (intro allI impI)
      fix i' j' assume x: "0 \<le> i' \<and> i' < n \<and> j' < 512 \<and> 3 + n + 512 * i' + j' \<le> q"
      show "4096 * (3 + i) + 8 * j \<noteq> 4096 * (3 + i') + 8 * j'"
      proof (cases "i = i'")
        case True
        with gt x have "j \<noteq> j'" by auto
        with True show ?thesis by simp
      next
        case False
        then consider "i < i'" | "i' < i" by arith
        then show ?thesis
        proof cases
          case 1
          from pt_addr_distinct[OF 1, of j j'] h x show ?thesis by blast
        next
          case 2
          from pt_addr_distinct[OF 2, of j' j] h x show ?thesis by metis
        qed
      qed
    qed
    with ptf have e1: "mem' (4096 * (3 + i) + 8 * j) = m3 (4096 * (3 + i) + 8 * j)" by blast
    have "\<forall>k. 0 \<le> k \<and> k < unat (mem_size div SIZE2MB) \<longrightarrow>
        4096 * (3 + i) + 8 * j \<noteq> unat (0x2000::u64) + 8 * k"
      using n512 by (auto simp: Bn)
    with pdf have "m3 (4096 * (3 + i) + 8 * j) = ?m2 (4096 * (3 + i) + 8 * j)" by blast
    with e1 have "mem' (4096 * (3 + i) + 8 * j) = mem (4096 * (3 + i) + 8 * j)" by simp
    then show ?thesis by (simp add: algebra_simps)
  qed
  from res c2 c3 c4 show ?thesis unfolding n_def by blast
qed

theorem setup_long_mode_KB4_witness:
  "(case setup_long_mode vc0 zero_mem 0x200000 KB4 of
      Inl x \<Rightarrow> False
    | Inr (r, m, v) \<Rightarrow> r = 0x4000 \<and> m 0x2000 = 0x3007 \<and> m 0x3000 = 0x4007
        \<and> m (0x3000 + 8 * 509) = 0)"
proof -
  have n: "unat (0x200000 :: u64) div unat SIZE2MB = 1"
    by (simp add: SIZE2MB_def)
  have h: "get_sregs_ok vc0" "set_sregs_ok vc0" "(0x200000 :: u64) \<noteq> 0"
    "unat SIZE2MB dvd unat (0x200000 :: u64)"
    "unat (0x200000 :: u64) div unat SIZE2MB \<le> 512"
    by (simp_all add: vc0_def SIZE2MB_def)
  from setup_long_mode_KB4[OF h, of zero_mem, unfolded n]
  obtain mem' vc' where r: "setup_long_mode vc0 zero_mem 0x200000 KB4
        = Inr (of_nat (0x3000 + 0x1000 * 1), mem', vc')"
    and pdv: "\<forall>i. i < 1 \<longrightarrow>
             mem' (0x2000 + 8 * i) = (PDE64_PRESENT OR PDE64_RW OR PDE64_USER OR page_at (3 + i))
             \<and> mem' (0x2000 + 8 * i) AND PDE64_PS = 0
             \<and> unat (mem' (0x2000 + 8 * i) AND NOT 0xFFF) = 0x3000 + 0x1000 * i"
    and ptv: "\<forall>i j. i < 1 \<and> j < 512
               \<and> 4096 * (3 + 1 + 512 * i + j) < unat (0x200000 :: u64) \<longrightarrow>
             mem' (0x3000 + 0x1000 * i + 8 * j) =
               (page_at (3 + 1 + 512 * i + j) OR PDE64_PRESENT OR PDE64_RW OR PDE64_USER)"
    and ptf: "\<forall>i j. i < 1 \<and> j < 512
               \<and> unat (0x200000 :: u64) < 4096 * (3 + 1 + 512 * i + j) \<longrightarrow>
             mem' (0x3000 + 0x1000 * i + 8 * j) = zero_mem (0x3000 + 0x1000 * i + 8 * j)"
    by blast
  from pdv[rule_format, of 0] have a: "mem' 0x2000 = 0x3007"
    by (simp add: page_at_def PDE64_PRESENT_def PDE64_RW_def PDE64_USER_def)
  from ptv[rule_format, of 0 0] have b: "mem' 0x3000 = 0x4007"
    by (simp add: page_at_def PDE64_PRESENT_def PDE64_RW_def PDE64_USER_def)
  from ptf[rule_format, of 0 509] have c: "mem' (0x3000 + 8 * 509) = 0"
    by (simp add: zero_mem_def)
  from r a b c show ?thesis by simp
qed

text \<open>
  C3, as the specification words it, for every multiple of 2 MiB: with 1 GiB + 2 MiB of
  memory (\<open>n = 513\<close>) the entry \<open>PD[512]\<close> lies at \<open>0x3000\<close>, where page table 0
  starts. The page-table loop overwrites it with the entry of the frame \<open>0x204000\<close>, so
  it is not \<open>PRESENT | RW | USER | (0x3000 + 512 * 4 KiB)\<close>.
\<close>

theorem setup_long_mode_KB4_counterexample:
  "\<not> (case setup_long_mode vc0 zero_mem 0x40200000 KB4 of
        Inl x \<Rightarrow> True
      | Inr (r, m, v) \<Rightarrow> m (0x2000 + 8 * 512) = 0x203007)"
proof -
  let ?ms = "0x40200000 :: u64"
  have Bn: "unat (?ms div SIZE2MB) = 513" by (simp add: SIZE2MB_def)
  have msq: "?ms = page_at 262656" by (simp add: page_at_def)
  have q50: "(262656 :: nat) < 2 ^ 50" by simp
  let ?m1 = "zero_mem(0 := PDE64_PRESENT OR PDE64_RW OR PDE64_USER OR 0x1000)"
  let ?m2 = "?m1(0x1000 := PDE64_PRESENT OR PDE64_RW OR PDE64_USER OR 0x2000)"
  have s1: "store64 ?ms zero_mem (unat (0::u64)) (PDE64_PRESENT OR PDE64_RW OR PDE64_USER OR 0x1000)
      = Inr ?m1"
    by (simp add: store64_def)
  have s2: "store64 ?ms ?m1 (unat (0x1000::u64)) (PDE64_PRESENT OR PDE64_RW OR PDE64_USER OR 0x2000)
      = Inr ?m2"
    by (simp add: store64_def)
  have p3: "(0x3000 :: u64) = page_at 3" by (simp add: page_at_def)
  have Bmax: "unat (?ms div SIZE2MB) \<le> INT_MAX" by (simp add: Bn INT_MAX_def)
  have inb: "\<forall>k<unat (?ms div SIZE2MB). unat (0x2000::u64) + 8 * k + 8 \<le> unat ?ms"
    unfolding Bn by auto
  from kb4_pd_loop_result[OF Bmax _ inb, of 0 3 ?m2]
  obtain m3 where pdl: "kb4_pd_loop ?ms 0x2000 0 (page_at 3) ?m2
        = Inr (page_at (3 + (unat (?ms div SIZE2MB) - 0)), m3)"
    and pdv: "\<forall>k. 0 \<le> k \<and> k < unat (?ms div SIZE2MB) \<longrightarrow>
        m3 (unat (0x2000::u64) + 8 * k) =
          (PDE64_PRESENT OR PDE64_RW OR PDE64_USER OR page_at (3 + (k - 0)))"
    by auto
  have pdv': "\<forall>k. 0 \<le> k \<and> k < 512 \<longrightarrow>
      m3 (0x2000 + 8 * k) = (PDE64_PRESENT OR PDE64_RW OR PDE64_USER OR page_at (3 + k))"
    using pdv by (simp add: Bn)
  have NB: "512 \<le> unat (?ms div SIZE2MB)" by (simp add: Bn)
  from kb4_pt_loop_prefix[OF msq q50 NB _ _ _ pdv', of 516]
  obtain mem' where ptl: "kb4_pt_loop ?ms 0x2000 0 (page_at (min (516 + 512 * 0) (262656 + 1))) m3
        = kb4_pt_loop ?ms 0x2000 512 (page_at (min (516 + 512 * 512) (262656 + 1))) mem'"
    and ptv: "\<forall>i' j. 0 \<le> i' \<and> i' < 512 \<and> j < 512 \<and> 516 + 512 * i' + j \<le> 262656 \<longrightarrow>
        mem' (4096 * (3 + i') + 8 * j) =
          (page_at (516 + 512 * i' + j) OR PDE64_PRESENT OR PDE64_RW OR PDE64_USER)"
    by auto
  from ptv[rule_format, of 0 0] have v0: "mem' 0x3000 = 0x204007"
    by (simp add: page_at_def PDE64_PRESENT_def PDE64_RW_def PDE64_USER_def)
  have past: "?ms < page_at 262657" by (simp add: page_at_def)
  have c512: "(of_nat 512 :: u64) < ?ms div SIZE2MB" by (simp add: SIZE2MB_def)
  have c513: "\<not> (of_nat (512 + 1) :: u64) < ?ms div SIZE2MB" by (simp add: SIZE2MB_def)
  have ld: "load64 ?ms mem' (unat (0x2000 :: u64) + 8 * 512) = Inr (mem' 0x3000)"
    by (simp add: load64_def)
  have nomax: "\<not> INT_MAX \<le> 512" by (simp add: INT_MAX_def)
  have last: "kb4_pt_loop ?ms 0x2000 512 (page_at 262657) mem' = Inr mem'"
    by (subst kb4_pt_loop.simps)
      (simp only: c512 ld pt_loop_past_end[OF past] kb4_pt_loop_done[OF c513] nomax fbind_Inr
        Let_def if_True if_False prod.case)
  have ptl': "kb4_pt_loop ?ms 0x2000 0 (page_at 516) m3 = Inr mem'"
    using ptl last by simp
  have pdl': "kb4_pd_loop ?ms 0x2000 0 0x3000 ?m2 = Inr (page_at 516, m3)"
    using pdl by (simp add: Bn p3)
  have ok: "get_sregs_ok vc0" "set_sregs_ok vc0" by (simp_all add: vc0_def)
  have "\<exists>r v. setup_long_mode vc0 zero_mem ?ms KB4 = Inr (r, mem', v)"
    using ok s1 s2 pdl' ptl' by (simp add: setup_long_mode_def Let_def)
  then show ?thesis using v0 by auto
qed

section \<open>Results: paravirtual file engine\<close>


lemma deref_eq_Inr: "(deref h p = Inr f) = (\<exists>a. p = Some a \<and> map_of h a = Some f)"
  by (cases p) (simp_all add: deref_def split: option.splits)

lemma map_of_update: "map_of (AList.update a f h) b = (if b = a then Some f else map_of h b)"
  by (simp add: update_conv')

lemma ucast_deliver_byte: "(ucast ((old AND NOT 0xFF) OR ucast b :: 32 word) :: byte) = b"
  for b :: byte and old :: "32 word"
proof -
  have ff: "(0xFF :: 32 word) = mask 8" by (simp add: mask_eq_exp_minus_1)
  show ?thesis unfolding ff by (rule bit_word_eqI) (auto simp add: bit_simps)
qed

lemma ucast_deliver_byte': "(ucast ((old AND - 256) OR ucast b :: 32 word) :: byte) = b"
  for b :: byte and old :: "32 word"
  using ucast_deliver_byte[of old b] by simp



lemma set_current_simps [simp]:
  "vm (set_current w f) = vm w"
  "file_mutex (set_current w f) = file_mutex w"
  "host (set_current w f) = host w"
  by (simp_all add: set_current_def split: option.splits)

lemma heap_set_current:
  "current_file (vm w) = Some a \<Longrightarrow>
     map_of (heap (set_current w f)) b = (if b = a then Some f else map_of (heap w) b)"
  by (simp add: set_current_def map_of_update)

lemma set_io_simps [simp]:
  "lock (vm (set_io_int w v)) = lock (vm w)"
  "current_file (vm (set_io_int w v)) = current_file (vm w)"
  "heap (set_io_int w v) = heap w"
  "file_mutex (set_io_int w v) = file_mutex w"
  "host (set_io_int w v) = host w"
  "io_data (io (vm (set_io_int w v))) = v"
  "lock (vm (set_io_char w c)) = lock (vm w)"
  "current_file (vm (set_io_char w c)) = current_file (vm w)"
  "heap (set_io_char w c) = heap w"
  "file_mutex (set_io_char w c) = file_mutex w"
  "host (set_io_char w c) = host w"
  by (simp_all add: set_io_int_def set_io_char_def)

lemma deliver_simps [simp]:
  "lock (vm (deliver w m)) = lock (vm w)"
  "current_file (vm (deliver w m)) = current_file (vm w)"
  "file_head (vm (deliver w m)) = file_head (vm w)"
  "file_indirect (vm (deliver w m)) = file_indirect (vm w)"
  "id_vm (vm (deliver w m)) = id_vm (vm w)"
  "heap (deliver w m) = heap w"
  "file_mutex (deliver w m) = file_mutex w"
  "host (deliver w m) = host w"
  by (simp_all add: deliver_def Let_def)

lemma deliver_io:
  "io (vm (deliver w (OutDword d))) =
     \<lparr>io_direction = KVM_EXIT_IO_OUT, io_size = 4, io_port = PARALLEL_PORT, io_data = d\<rparr>"
  "io_direction (io (vm (deliver w (OutByte b)))) = KVM_EXIT_IO_OUT"
  "io_size (io (vm (deliver w (OutByte b)))) = 1"
  "(ucast (io_data (io (vm (deliver w (OutByte b))))) :: byte) = b"
  "io_direction (io (vm (deliver w InDword))) = KVM_EXIT_IO_IN"
  "io_size (io (vm (deliver w InDword))) = 4"
  "io_direction (io (vm (deliver w InByte))) = KVM_EXIT_IO_IN"
  "io_size (io (vm (deliver w InByte))) = 1"
  by (simp_all add: deliver_def Let_def ucast_deliver_byte')




lemma check_path_exists_Inr:
  "check_path_exists ops w = Inr (r, w') \<Longrightarrow>
     vm w' = vm w \<and> heap w' = heap w \<and> file_mutex w' = file_mutex w"
  by (auto simp: check_path_exists_def fbind_eq_Inr Let_def split_beta split: if_splits)

lemma create_local_copy_Inr:
  "create_local_copy ops w = Inr w' \<Longrightarrow>
     vm w' = vm w \<and> heap w' = heap w \<and> file_mutex w' = file_mutex w"
  by (auto simp: create_local_copy_def fbind_eq_Inr Let_def split_beta split: if_splits)

lemma opened_file_op_flags_Inr:
  assumes "opened_file_op_flags ops w data = Inr (r, w')"
  shows "r = 0 \<and> vm w' = vm w \<and> file_mutex w' = file_mutex w
     \<and> (\<exists>a. current_file (vm w) = Some a \<and> map_of (heap w') a \<noteq> None)"
proof -
  from assms obtain a f where a: "current_file (vm w) = Some a" and f: "map_of (heap w) a = Some f"
    by (auto simp: opened_file_op_flags_def fbind_eq_Inr deref_eq_Inr)
  have live: "map_of (heap (set_current v x)) a \<noteq> None" if "vm v = vm w" for v :: "'a world" and x
    using a that by (simp add: heap_set_current)
  from assms a f show ?thesis
    by (auto simp: opened_file_op_flags_def deref_def Let_def fbind_eq_Inr
        heap_set_current split_beta
        split: if_splits
        dest!: check_path_exists_Inr create_local_copy_Inr)
qed

lemma opened_file_op_name_Inr:
  assumes "opened_file_op_name w data = Inr (r, w')"
  shows "r = 0 \<and> vm w' = vm w \<and> file_mutex w' = file_mutex w
     \<and> (\<exists>a. current_file (vm w) = Some a \<and> map_of (heap w') a \<noteq> None)"
  using assms
  by (auto simp: opened_file_op_name_def fbind_eq_Inr deref_eq_Inr heap_set_current
      split: if_splits)







lemma op_codes_distinct [simp]:
  "OPEN \<noteq> 0" "CLOSE \<noteq> 0" "READ \<noteq> 0" "WRITE \<noteq> 0"
  "CLOSE \<noteq> OPEN" "READ \<noteq> OPEN" "WRITE \<noteq> OPEN" "OPEN \<noteq> CLOSE" "OPEN \<noteq> READ" "OPEN \<noteq> WRITE"
  by (simp_all add: OPEN_def CLOSE_def READ_def WRITE_def)



lemma io_keeps_file_head [simp]:
  "file_head (vm (set_io_int w v)) = file_head (vm w)"
  "file_head (vm (set_io_char w c)) = file_head (vm w)"
  by (simp_all add: set_io_int_def set_io_char_def)










lemmas boot_defs = boot_world_def init_guest_files_def blank_guest_def blank_io_def env0_def
  no_host_def fixed_host_def deliver_def handle_file_def start_file_operation_def sem_wait_def
  init_file_def write_indirect_def Let_def OPEN_def CLOSE_def READ_def WRITE_def FINISH_def
  PARALLEL_PORT_def

lemma boot_open: "guest_msgs no_host [(env0, OutDword OPEN)] boot_world = Inr opened_world"
  by (simp add: boot_defs opened_world_def fresh_file_def)







lemma name_step:
  assumes "lock (vm w) = OPEN" "current_file (vm w) = Some a" "map_of (heap w) a = Some f"
  shows "handle_file ops e (deliver w (OutByte b)) =
     (if cnt f < 50
      then Inr (0, set_current (deliver w (OutByte b))
                     (f\<lparr>ime := (ime f)[cnt f := b], cnt := cnt f + 1\<rparr>))
      else Inl (StoreOutsideName (cnt f)))"
  using assms
  by (simp add: handle_file_def Let_def deliver_io opened_file_op_name_def deref_def)

lemma name_stream:
  assumes "lock (vm w) = OPEN" "current_file (vm w) = Some a" "map_of (heap w) a = Some f"
    and "length (ime f) = 50" "cnt f \<le> 50"
  shows "if cnt f + length bs \<le> 50
     then \<exists>w'. guest_msgs ops (map (\<lambda>b. (e, OutByte b)) bs) w = Inr w'
            \<and> map_of (heap w') a =
                Some (f\<lparr>ime := take (cnt f) (ime f) @ bs @ drop (cnt f + length bs) (ime f),
                        cnt := cnt f + length bs\<rparr>)
            \<and> lock (vm w') = OPEN \<and> current_file (vm w') = Some a
            \<and> file_mutex w' = file_mutex w
     else guest_msgs ops (map (\<lambda>b. (e, OutByte b)) bs) w = Inl (StoreOutsideName 50)"
  using assms
proof (induction bs arbitrary: w f)
  case Nil
  then show ?case by simp
next
  case (Cons b bs)
  show ?case
  proof (cases "cnt f < 50")
    case False
    with Cons.prems have c: "cnt f = 50" by simp
    with Cons.prems show ?thesis
      by (simp add: name_step[OF Cons.prems(1-3)])
  next
    case True
    let ?f1 = "f\<lparr>ime := (ime f)[cnt f := b], cnt := cnt f + 1\<rparr>"
    let ?w1 = "set_current (deliver w (OutByte b)) ?f1"
    have step: "handle_file ops e (deliver w (OutByte b)) = Inr (0, ?w1)"
      using True by (simp add: name_step[OF Cons.prems(1-3)])
    have p: "lock (vm ?w1) = OPEN" "current_file (vm ?w1) = Some a"
      "map_of (heap ?w1) a = Some ?f1" "length (ime ?f1) = 50" "cnt ?f1 \<le> 50"
      using Cons.prems True by (simp_all add: heap_set_current)
    have run: "guest_msgs ops (map (\<lambda>b. (e, OutByte b)) (b # bs)) w
        = guest_msgs ops (map (\<lambda>b. (e, OutByte b)) bs) ?w1"
      by (simp add: step)
    have tk: "take (Suc (cnt f)) ((ime f)[cnt f := b]) = take (cnt f) (ime f) @ [b]"
      using True Cons.prems(4) by (simp add: take_Suc_conv_app_nth)
    from Cons.IH[OF p] show ?thesis
      unfolding run by (simp add: tk split: if_splits)
  qed
qed

text \<open>
  C6. After OPEN has started, a stream of at most 50 name bytes (49 bytes and the null
  terminator, say) is accepted and stored in \<open>ime\<close> with \<open>cnt\<close> at most 50. A stream of
  more than 50 bytes (a name of 50 bytes or more and its terminator) is not rejected:
  the 51st byte is stored at \<open>ime[50]\<close>, outside the buffer, and no descriptor
  \<open>-1\<close> is reported.
\<close>

theorem open_name_buffer_bound:
  assumes "lock (vm w) = OPEN" "current_file (vm w) = Some a" "map_of (heap w) a = Some f"
    and "cnt f = 0" "length (ime f) = 50"
  shows "(length bs \<le> 50 \<longrightarrow>
            (\<exists>w'. guest_msgs ops (map (\<lambda>b. (e, OutByte b)) bs) w = Inr w'
               \<and> map_of (heap w') a =
                   Some (f\<lparr>ime := bs @ drop (length bs) (ime f), cnt := length bs\<rparr>)
               \<and> lock (vm w') = OPEN \<and> current_file (vm w') = Some a))
       \<and> (50 < length bs \<longrightarrow>
            guest_msgs ops (map (\<lambda>b. (e, OutByte b)) bs) w = Inl (StoreOutsideName 50))"
  using name_stream[OF assms(1-3) assms(5), of bs ops e] assms(4)
  by (auto split: if_splits)

theorem open_name_buffer_bound_witness:
  "guest_msgs no_host (map (\<lambda>b. (env0, OutByte b)) (replicate 50 65 @ [0])) opened_world
     = Inl (StoreOutsideName 50)
   \<and> (case guest_msgs no_host (map (\<lambda>b. (env0, OutByte b)) (replicate 49 65 @ [0])) opened_world of
        Inl x \<Rightarrow> False
      | Inr w \<Rightarrow> map_of (heap w) 0 = Some (fresh_file\<lparr>ime := replicate 49 65 @ [0], cnt := 50\<rparr>))"
proof -
  have h: "lock (vm opened_world) = OPEN" "current_file (vm opened_world) = Some 0"
    "map_of (heap opened_world) 0 = Some fresh_file" "cnt fresh_file = 0"
    "length (ime fresh_file) = 50"
    by (simp_all add: opened_world_def fresh_file_def)
  from open_name_buffer_bound[OF h, of "replicate 50 65 @ [0]" no_host env0]
  have a: "guest_msgs no_host (map (\<lambda>b. (env0, OutByte b)) (replicate 50 65 @ [0])) opened_world
     = Inl (StoreOutsideName 50)"
    by simp
  from open_name_buffer_bound[OF h, of "replicate 49 65 @ [0]" no_host env0]
  obtain w' where "guest_msgs no_host (map (\<lambda>b. (env0, OutByte b)) (replicate 49 65 @ [0])) opened_world
      = Inr w'"
    and "map_of (heap w') 0 = Some (fresh_file\<lparr>ime := replicate 49 65 @ [0], cnt := 50\<rparr>)"
    by (auto simp: fresh_file_def)
  with a show ?thesis by simp
qed

lemma cstr_update_fields [simp]:
  "ime (f\<lparr>mode := d\<rparr>) = ime f" "flags (f\<lparr>mode := d\<rparr>) = flags f"
  by simp_all

lemma check_path_exists_eq:
  assumes "current_file (vm w) = Some a" "map_of (heap w) a = Some f" "cstr (ime f) = Inr name"
  shows "check_path_exists ops w =
     (if sys_access ops (host w) (sandbox_path (id_vm (vm w)) name)
      then Inr (fst (sys_open ops (host w) (sandbox_path (id_vm (vm w)) name) (flags f) (mode f)),
                w\<lparr>host := snd (sys_open ops (host w) (sandbox_path (id_vm (vm w)) name)
                                 (flags f) (mode f))\<rparr>)
      else Inr (- 1, w))"
  using assms by (simp add: check_path_exists_def deref_def Let_def split_beta)

lemma create_local_copy_eq:
  assumes "current_file (vm w) = Some a" "map_of (heap w) a = Some f" "cstr (ime f) = Inr name"
  shows "create_local_copy ops w =
     Inr (w\<lparr>host := snd (sys_open ops (host w) (sandbox_path (id_vm (vm w)) name) O_CREAT 511)\<rparr>)"
  using assms by (simp add: create_local_copy_def deref_def Let_def split_beta)

lemma opened_file_op_flags_first:
  assumes "current_file (vm w) = Some a" "map_of (heap w) a = Some f" "flags f = - 1"
  shows "opened_file_op_flags ops w d = Inr (0, set_current w (f\<lparr>flags := d\<rparr>))"
  using assms by (simp add: opened_file_op_flags_def deref_def)

lemma opened_file_op_flags_mode:
  assumes cur: "current_file (vm w) = Some a" and f: "map_of (heap w) a = Some f"
    and fl: "flags f \<noteq> - 1" and nm: "cstr (ime f) = Inr name"
  shows "\<exists>w' r. opened_file_op_flags ops w d = Inr (0, w')
           \<and> map_of (heap w') a = Some (f\<lparr>mode := d, fd := r\<rparr>)
           \<and> vm w' = vm w \<and> file_mutex w' = file_mutex w"
proof -
  let ?f1 = "f\<lparr>mode := d\<rparr>"
  let ?w1 = "set_current w ?f1"
  have c1: "current_file (vm ?w1) = Some a" "map_of (heap ?w1) a = Some ?f1"
    "cstr (ime ?f1) = Inr name"
    using cur nm by (simp_all add: heap_set_current)
  have c2: "current_file (vm (?w1\<lparr>host := x\<rparr>)) = Some a"
    "map_of (heap (?w1\<lparr>host := x\<rparr>)) a = Some ?f1" for x
    using cur by (simp_all add: heap_set_current)
  have live: "map_of (heap (set_current v x)) a = Some x" if "current_file (vm v) = Some a"
    for v :: "'a world" and x
    using that by (simp add: heap_set_current)
  show ?thesis
    using cur f fl nm
    by (auto simp add: opened_file_op_flags_def deref_def Let_def
        check_path_exists_eq[OF c1] check_path_exists_eq[OF c2 c1(3)]
        create_local_copy_eq[OF c1] create_local_copy_eq[OF c2 c1(3)]
        split_beta heap_set_current)
qed

text \<open>
  C1. When the sandboxed file exists but opening it with the guest's flags and mode
  fails, and the flags carry no write intent, the descriptor the guest sees is the
  result of opening the guest-supplied name in the host cwd, not the (negative) result
  of opening the sandboxed file as the claim says.
\<close>

theorem private_copy_unopenable_falls_back:
  assumes cur: "current_file (vm w) = Some a" and f: "map_of (heap w) a = Some f"
    and fl: "flags f \<noteq> - 1" and nm: "cstr (ime f) = Inr name"
    and ex: "sys_access ops (host w) (sandbox_path (id_vm (vm w)) name)"
    and op1: "sys_open ops (host w) (sandbox_path (id_vm (vm w)) name) (flags f) d = (r1, h1)"
    and neg: "r1 <s 0"
    and ro: "flags f AND (O_RDWR OR O_WRONLY OR O_TRUNC OR O_APPEND) = 0"
    and op2: "sys_open ops h1 name (flags f) d = (r2, h2)"
  shows "\<exists>w'. opened_file_op_flags ops w d = Inr (0, w')
           \<and> map_of (heap w') a = Some (f\<lparr>mode := d, fd := r2\<rparr>) \<and> host w' = h2"
proof -
  let ?f1 = "f\<lparr>mode := d\<rparr>"
  let ?w1 = "set_current w ?f1"
  have c1: "current_file (vm ?w1) = Some a" "map_of (heap ?w1) a = Some ?f1"
    "cstr (ime ?f1) = Inr name"
    using cur nm by (simp_all add: heap_set_current)
  show ?thesis
    using cur f fl nm ex op1 neg ro op2
    by (simp add: opened_file_op_flags_def deref_def Let_def
        check_path_exists_eq[OF c1] split_beta heap_set_current)
qed

lemma cstr_foo: "cstr (ime foo_file) = Inr (map of_char ''foo'')"
  by (simp add: cstr_def foo_file_def)

lemma sandbox_path_0_foo: "sandbox_path 0 (map of_char ''foo'') = map of_char ''vm_0_foo''"
  by (simp add: sandbox_path_def dec_int_def dec_nat.simps)

theorem private_copy_unopenable_falls_back_witness:
  "sys_access foo_host (host foo_world) (sandbox_path (id_vm (vm foo_world)) (map of_char ''foo''))
   \<and> fst (sys_open foo_host (host foo_world)
            (sandbox_path (id_vm (vm foo_world)) (map of_char ''foo'')) O_RDONLY 0) = - 1
   \<and> (case opened_file_op_flags foo_host foo_world 0 of
        Inl x \<Rightarrow> False
      | Inr (r, w) \<Rightarrow> map_of (heap w) 0 = Some (foo_file\<lparr>mode := 0, fd := 3\<rparr>))"
proof -
  have h: "current_file (vm foo_world) = Some 0" "map_of (heap foo_world) 0 = Some foo_file"
    "flags foo_file \<noteq> - 1" "cstr (ime foo_file) = Inr (map of_char ''foo'')"
    by (simp_all add: foo_world_def opened_world_def cstr_foo) (simp add: foo_file_def O_RDONLY_def)
  have idv: "id_vm (vm foo_world) = 0" by (simp add: foo_world_def opened_world_def)
  have ex: "sys_access foo_host (host foo_world)
      (sandbox_path (id_vm (vm foo_world)) (map of_char ''foo''))"
    unfolding idv sandbox_path_0_foo by (simp add: foo_host_def fixed_host_def)
  have op1: "sys_open foo_host (host foo_world)
      (sandbox_path (id_vm (vm foo_world)) (map of_char ''foo'')) (flags foo_file) 0 = (- 1, ())"
    unfolding idv sandbox_path_0_foo by (simp add: foo_host_def fixed_host_def)
  have neg: "(- 1 :: c_int) <s 0" by (simp add: word_sless_alt)
  have ro: "flags foo_file AND (O_RDWR OR O_WRONLY OR O_TRUNC OR O_APPEND) = 0"
    by (simp add: foo_file_def O_RDONLY_def)
  have op2: "sys_open foo_host () (map of_char ''foo'') (flags foo_file) 0 = (3, ())"
    by (simp add: foo_host_def fixed_host_def)
  from private_copy_unopenable_falls_back[OF h ex op1 neg ro op2]
  obtain w' where "opened_file_op_flags foo_host foo_world 0 = Inr (0, w')"
    and "map_of (heap w') 0 = Some (foo_file\<lparr>mode := 0, fd := 3\<rparr>)"
    by blast
  with ex op1 show ?thesis by (simp add: foo_file_def)
qed

lemma cstr_Inr: "0 \<in> set buf \<Longrightarrow> cstr buf = Inr (takeWhile (\<lambda>b. b \<noteq> 0) buf)"
  by (simp add: cstr_def)

lemma open_phase_dword:
  assumes "lock (vm w) = OPEN"
  shows "handle_file ops e (deliver w (OutDword d)) =
     opened_file_op_flags ops (deliver w (OutDword d)) d"
  using assms by (simp add: handle_file_def Let_def deliver_io)

lemma open_phase_in_dword:
  assumes "lock (vm w) = OPEN"
  shows "handle_file ops e (deliver w InDword) = opened_file_op_send_fd (deliver w InDword)"
  using assms by (simp add: handle_file_def Let_def deliver_io)

lemma open_phase_other:
  assumes l: "lock (vm w) = OPEN" and cur: "current_file (vm w) = Some a"
    and m: "m \<noteq> InDword" and s: "handle_file ops e (deliver w m) = Inr (r, w')"
  shows "lock (vm w') = OPEN \<and> current_file (vm w') = Some a \<and> file_mutex w' = file_mutex w"
proof (cases m)
  case (OutDword d)
  with s l have "opened_file_op_flags ops (deliver w (OutDword d)) d = Inr (r, w')"
    by (simp add: open_phase_dword)
  from opened_file_op_flags_Inr[OF this] l cur show ?thesis by simp
next
  case (OutByte b)
  with s l have "opened_file_op_name (deliver w (OutByte b)) b = Inr (r, w')"
    by (simp add: handle_file_def Let_def deliver_io)
  from opened_file_op_name_Inr[OF this] l cur show ?thesis by simp
next
  case InDword
  with m show ?thesis by simp
next
  case InByte
  with s l have "w' = deliver w InByte"
    by (simp add: handle_file_def Let_def deliver_io)
  with l cur show ?thesis by simp
qed

text \<open>
  C10, as amended. While \<open>file_lock\<close> is OPEN and \<open>current_file\<close> is an allocated
  record \<open>f\<close>: an OUT dword \<open>d\<close> (0 included) is stored as \<open>flags\<close> when the stored
  flags are still \<open>-1\<close>, and as \<open>mode\<close>, followed by path resolution, otherwise (the
  name being terminated); no message other than the IN dword ends the operation, moves
  \<open>current_file\<close> or releases the token; the IN dword hands out \<open>f.fd\<close>, releases the
  token and clears \<open>file_lock\<close> and \<open>current_file\<close>.
\<close>

theorem open_phase_protocol:
  assumes l: "lock (vm w) = OPEN" and cur: "current_file (vm w) = Some a"
    and f: "map_of (heap w) a = Some f"
  shows "(flags f = - 1 \<longrightarrow>
            handle_file ops e (deliver w (OutDword d)) =
              Inr (0, set_current (deliver w (OutDword d)) (f\<lparr>flags := d\<rparr>)))
       \<and> (flags f \<noteq> - 1 \<and> 0 \<in> set (ime f) \<longrightarrow>
            (\<exists>w' r. handle_file ops e (deliver w (OutDword d)) = Inr (0, w')
               \<and> map_of (heap w') a = Some (f\<lparr>mode := d, fd := r\<rparr>)
               \<and> lock (vm w') = OPEN \<and> current_file (vm w') = Some a
               \<and> file_mutex w' = file_mutex w))
       \<and> (\<forall>m r w'. m \<noteq> InDword \<and> handle_file ops e (deliver w m) = Inr (r, w') \<longrightarrow>
            lock (vm w') = OPEN \<and> current_file (vm w') = Some a
            \<and> file_mutex w' = file_mutex w)
       \<and> (\<exists>w'. handle_file ops e (deliver w InDword) = Inr (0, w')
            \<and> io_data (io (vm w')) = fd f
            \<and> lock (vm w') = 0 \<and> current_file (vm w') = None
            \<and> file_mutex w' = file_mutex w + 1)"
proof -
  have c1: "handle_file ops e (deliver w (OutDword d)) =
      Inr (0, set_current (deliver w (OutDword d)) (f\<lparr>flags := d\<rparr>))"
    if "flags f = - 1"
    using that l cur f by (simp add: open_phase_dword opened_file_op_flags_first)
  have c2: "\<exists>w' r. handle_file ops e (deliver w (OutDword d)) = Inr (0, w')
      \<and> map_of (heap w') a = Some (f\<lparr>mode := d, fd := r\<rparr>)
      \<and> lock (vm w') = OPEN \<and> current_file (vm w') = Some a
      \<and> file_mutex w' = file_mutex w"
    if a: "flags f \<noteq> - 1 \<and> 0 \<in> set (ime f)"
  proof -
    have c: "current_file (vm (deliver w (OutDword d))) = Some a"
      "map_of (heap (deliver w (OutDword d))) a = Some f"
      using cur f by simp_all
    from a have nm: "cstr (ime f) = Inr (takeWhile (\<lambda>b. b \<noteq> 0) (ime f))"
      by (simp add: cstr_Inr)
    from a have fl: "flags f \<noteq> - 1" by simp
    from opened_file_op_flags_mode[OF c fl nm, of ops d] show ?thesis
      using l cur by (auto simp: open_phase_dword)
  qed
  have c3: "lock (vm w') = OPEN \<and> current_file (vm w') = Some a \<and> file_mutex w' = file_mutex w"
    if "m \<noteq> InDword \<and> handle_file ops e (deliver w m) = Inr (r, w')" for m r w'
    using that open_phase_other[OF l cur] by blast
  have c4: "\<exists>w'. handle_file ops e (deliver w InDword) = Inr (0, w')
      \<and> io_data (io (vm w')) = fd f
      \<and> lock (vm w') = 0 \<and> current_file (vm w') = None
      \<and> file_mutex w' = file_mutex w + 1"
    using l cur f
    by (simp add: open_phase_in_dword opened_file_op_send_fd_def deref_def
        end_file_operation_def sem_post_def Let_def set_io_int_def)
  from c1 c2 c3 c4 show ?thesis by blast
qed

theorem open_phase_protocol_witness:
  "(case handle_file no_host env0 (deliver opened_world (OutDword FINISH)) of
      Inl x \<Rightarrow> False
    | Inr (r, w) \<Rightarrow> lock (vm w) = OPEN \<and> file_mutex w = file_mutex opened_world
        \<and> map_of (heap w) 0 = Some (fresh_file\<lparr>flags := FINISH\<rparr>))"
proof -
  have h: "lock (vm opened_world) = OPEN" "current_file (vm opened_world) = Some 0"
    "map_of (heap opened_world) 0 = Some fresh_file"
    by (simp_all add: opened_world_def)
  have fl: "flags fresh_file = - 1" by (simp add: fresh_file_def)
  from open_phase_protocol[OF h, where d = FINISH and ops = no_host and e = env0] fl
  have "handle_file no_host env0 (deliver opened_world (OutDword FINISH)) =
      Inr (0, set_current (deliver opened_world (OutDword FINISH)) (fresh_file\<lparr>flags := FINISH\<rparr>))"
    by blast
  then show ?thesis
    using h by (simp add: heap_set_current)
qed

text \<open>
  With a first dword of \<open>-1\<close> the second dword is stored as \<open>flags\<close> again: \<open>mode\<close>
  stays unset and no path is resolved.
\<close>

theorem second_dword_not_mode_counterexample:
  "\<not> (case guest_msgs no_host [(env0, OutDword (- 1)), (env0, OutDword 5)] opened_world of
        Inl x \<Rightarrow> True
      | Inr w \<Rightarrow> (case map_of (heap w) 0 of None \<Rightarrow> True | Some f \<Rightarrow> mode f = 5))"
proof -
  have h: "lock (vm opened_world) = OPEN" "current_file (vm opened_world) = Some 0"
    "map_of (heap opened_world) 0 = Some fresh_file"
    by (simp_all add: opened_world_def)
  let ?w1 = "set_current (deliver opened_world (OutDword (- 1))) (fresh_file\<lparr>flags := - 1\<rparr>)"
  have s1: "handle_file no_host env0 (deliver opened_world (OutDword (- 1))) = Inr (0, ?w1)"
    using h by (simp add: open_phase_dword opened_file_op_flags_first fresh_file_def)
  have h1: "lock (vm ?w1) = OPEN" "current_file (vm ?w1) = Some 0"
    "map_of (heap ?w1) 0 = Some (fresh_file\<lparr>flags := - 1\<rparr>)"
    using h by (simp_all add: heap_set_current)
  let ?w2 = "set_current (deliver ?w1 (OutDword 5)) (fresh_file\<lparr>flags := 5\<rparr>)"
  have s2: "handle_file no_host env0 (deliver ?w1 (OutDword 5)) = Inr (0, ?w2)"
    using h1 by (simp add: open_phase_dword opened_file_op_flags_first fresh_file_def)
  have "guest_msgs no_host [(env0, OutDword (- 1)), (env0, OutDword 5)] opened_world = Inr ?w2"
    by (simp add: s1 s2)
  moreover have "map_of (heap ?w2) 0 = Some (fresh_file\<lparr>flags := 5\<rparr>)"
    using h1 by (simp add: heap_set_current)
  moreover have "mode (fresh_file\<lparr>flags := 5\<rparr>) \<noteq> 5"
    by (simp add: fresh_file_def)
  ultimately show ?thesis by simp
qed




text \<open>
  C8. On an IN from port \<open>0xE9\<close> whose \<open>read\<close> does not return 1, the byte placed in
  the run region is the uninitialised local \<open>c\<close>, not the EOF sentinel.
\<close>

theorem console_in_short_read:
  assumes "io_direction (io (vm w)) = KVM_EXIT_IO_IN" and "io_port (io (vm w)) = 0xE9"
    and "sys_read ops (host w) (pty_master (vm w)) = ((status, b), h')" and "status \<noteq> 1"
  shows "exit_io ops e w = Inr (0, set_io_char (w\<lparr>host := h'\<rparr>) (stack_c e))"
  using assms by (simp add: exit_io_def Let_def)

theorem console_in_short_read_witness:
  "(case exit_io no_host env0 console_in_world of
      Inl x \<Rightarrow> False
    | Inr (r, w) \<Rightarrow> r = 0 \<and> (ucast (io_data (io (vm w))) :: byte) = 0x41)
   \<and> (0x41 :: byte) \<noteq> EOF"
proof -
  have h: "io_direction (io (vm console_in_world)) = KVM_EXIT_IO_IN"
    "io_port (io (vm console_in_world)) = 0xE9"
    "sys_read no_host (host console_in_world) (pty_master (vm console_in_world)) = ((0, 0), ())"
    "(0 :: c_int) \<noteq> 1"
    by (simp_all add: console_in_world_def no_host_def fixed_host_def)
  from console_in_short_read[OF h, of env0] show ?thesis
    by (simp add: set_io_char_def console_in_world_def env0_def EOF_def boot_world_def)
qed

section \<open>Results: guests sharing the file token\<close>

lemma length_filter_update:
  "t < length xs \<Longrightarrow>
     length (filter P (xs[t := y])) + (if P (xs ! t) then 1 else 0)
       = length (filter P xs) + (if P y then 1 else 0)"
proof (induction xs arbitrary: t)
  case Nil
  then show ?case by simp
next
  case (Cons x xs)
  show ?case
  proof (cases t)
    case 0
    then show ?thesis by simp
  next
    case (Suc t')
    with Cons.prems have "t' < length xs" by simp
    from Cons.IH[OF this] Suc show ?thesis by simp
  qed
qed

lemma fire_token_invariant:
  assumes "token_invariant s" and "fire a s = Some s'"
  shows "token_invariant s'"
proof -
  let ?L = "length (filter in_critical_section (threads s))"
  from assms(1) have inv: "mutex s + ?L \<le> 1" by (simp add: token_invariant_def)
  have upd: "mutex s' + length (filter in_critical_section ((threads s)[t := th])) \<le> 1"
    if "t < length (threads s)"
      and "mutex s' + (if in_critical_section th then 1 else 0)
            \<le> mutex s + (if in_critical_section (threads s ! t) then 1 else 0)"
    for t th
    using length_filter_update[OF that(1), of in_critical_section th] that(2) inv by arith
  show ?thesis
  proof (cases a)
    case (SemWait t operation)
    with assms(2) have c: "t < length (threads s)" "t_pc (threads s ! t) = Running"
      "t_lock (threads s ! t) = 0" "0 < mutex s"
      and s': "s' = set_thread (s\<lparr>mutex := mutex s - 1\<rparr>) t
                     ((threads s ! t)\<lparr>t_pc := InStart operation\<rparr>)"
      by (auto split: if_splits)
    from c have "mutex s' + (if in_critical_section ((threads s ! t)\<lparr>t_pc := InStart operation\<rparr>)
          then 1 else 0) \<le> mutex s + (if in_critical_section (threads s ! t) then 1 else 0)"
      by (simp add: s' set_thread_def in_critical_section_def)
    from upd[OF c(1) this] show ?thesis
      by (simp add: token_invariant_def s' set_thread_def)
  next
    case (SetLock t)
    with assms(2) obtain operation where c: "t < length (threads s)"
      "t_pc (threads s ! t) = InStart operation"
      and s': "s' = set_thread s t ((threads s ! t)\<lparr>t_lock := operation, t_pc := Running\<rparr>)"
      by (auto split: if_splits pc.splits)
    from c have "mutex s' + (if in_critical_section
          ((threads s ! t)\<lparr>t_lock := operation, t_pc := Running\<rparr>) then 1 else 0)
        \<le> mutex s + (if in_critical_section (threads s ! t) then 1 else 0)"
      by (simp add: s' set_thread_def in_critical_section_def)
    from upd[OF c(1) this] show ?thesis
      by (simp add: token_invariant_def s' set_thread_def)
  next
    case (SemPost t)
    with assms(2) have c: "t < length (threads s)" "t_pc (threads s ! t) = Running"
      "t_lock (threads s ! t) \<noteq> 0"
      and s': "s' = set_thread (s\<lparr>mutex := mutex s + 1\<rparr>) t ((threads s ! t)\<lparr>t_pc := InEnd\<rparr>)"
      by (auto split: if_splits)
    from c have "mutex s' + (if in_critical_section ((threads s ! t)\<lparr>t_pc := InEnd\<rparr>)
          then 1 else 0) \<le> mutex s + (if in_critical_section (threads s ! t) then 1 else 0)"
      by (simp add: s' set_thread_def in_critical_section_def)
    from upd[OF c(1) this] show ?thesis
      by (simp add: token_invariant_def s' set_thread_def)
  next
    case (ClearLock t)
    with assms(2) have c: "t < length (threads s)" "t_pc (threads s ! t) = InEnd"
      and s': "s' = set_thread s t ((threads s ! t)\<lparr>t_lock := 0, t_pc := Running\<rparr>)"
      by (auto split: if_splits)
    from c have "mutex s' + (if in_critical_section
          ((threads s ! t)\<lparr>t_lock := 0, t_pc := Running\<rparr>) then 1 else 0)
        \<le> mutex s + (if in_critical_section (threads s ! t) then 1 else 0)"
      by (simp add: s' set_thread_def in_critical_section_def)
    from upd[OF c(1) this] show ?thesis
      by (simp add: token_invariant_def s' set_thread_def)
  qed
qed

lemma fire_all_token_invariant:
  "token_invariant s \<Longrightarrow> fire_all as s = Some s' \<Longrightarrow> token_invariant s'"
proof (induction as arbitrary: s)
  case Nil
  then show ?case by simp
next
  case (Cons a as)
  from Cons.prems(2) obtain s1 where f: "fire a s = Some s1" and r: "fire_all as s1 = Some s'"
    by (auto split: option.splits)
  from Cons.IH[OF fire_token_invariant[OF Cons.prems(1) f] r] show ?case .
qed

lemma two_in_filter:
  assumes "i < j" "j < length xs" "P (xs ! i)" "P (xs ! j)"
  shows "2 \<le> length (filter P xs)"
proof -
  from assms(2) have xs: "xs = take j xs @ xs ! j # drop (Suc j) xs"
    by (rule id_take_nth_drop)
  from assms have "xs ! i \<in> set (take j xs)"
    by (auto simp: in_set_conv_nth intro!: exI[of _ i])
  with assms(3) have "filter P (take j xs) \<noteq> []" by (auto simp: filter_empty_conv)
  then have "1 \<le> length (filter P (take j xs))" by (cases "filter P (take j xs)") simp_all
  moreover have "length (filter P xs)
      = length (filter P (take j xs)) + length (filter P (xs ! j # drop (Suc j) xs))"
    by (subst xs) simp
  ultimately show ?thesis using assms(4) by simp
qed

text \<open>
  C4. In every state reached by any interleaving of the statements of
  \<open>start_file_operation\<close> and \<open>end_file_operation\<close> of any number of guests, the
  permits left on the semaphore and the guests between the return of \<open>sem_wait\<close> and
  their \<open>sem_post\<close> total at most one; so no two guests are in that section together.
\<close>

theorem file_token_mutual_exclusion:
  assumes "fire_all as (init_sys n) = Some s"
  shows "mutex s + length (filter in_critical_section (threads s)) \<le> 1
     \<and> (\<forall>i j. i < j \<and> j < length (threads s) \<longrightarrow>
           \<not> (in_critical_section (threads s ! i) \<and> in_critical_section (threads s ! j)))"
proof -
  have "token_invariant (init_sys n)"
    by (simp add: token_invariant_def init_sys_def in_critical_section_def)
  from fire_all_token_invariant[OF this assms] have inv: "token_invariant s" .
  have "\<not> (in_critical_section (threads s ! i) \<and> in_critical_section (threads s ! j))"
    if "i < j \<and> j < length (threads s)" for i j
  proof
    assume "in_critical_section (threads s ! i) \<and> in_critical_section (threads s ! j)"
    with that two_in_filter[of i j "threads s" in_critical_section]
    have "2 \<le> length (filter in_critical_section (threads s))" by blast
    with inv show False by (simp add: token_invariant_def)
  qed
  with inv show ?thesis by (auto simp: token_invariant_def)
qed

theorem file_token_mutual_exclusion_witness:
  "(case fire_all [SemWait 0 CLOSE, SetLock 0, SemPost 0, SemWait 1 OPEN, SetLock 1] (init_sys 2) of
      None \<Rightarrow> False
    | Some s \<Rightarrow> map t_lock (threads s) = [CLOSE, OPEN] \<and> map t_pc (threads s) = [InEnd, Running]
        \<and> mutex s = 0
        \<and> map in_critical_section (threads s) = [False, True])"
proof -
  have r: "fire_all [SemWait 0 CLOSE, SetLock 0, SemPost 0, SemWait 1 OPEN, SetLock 1] (init_sys 2)
      = Some \<lparr>mutex = 0, threads = [\<lparr>t_lock = CLOSE, t_pc = InEnd\<rparr>, \<lparr>t_lock = OPEN, t_pc = Running\<rparr>]\<rparr>"
    by (simp add: init_sys_def set_thread_def numeral_2_eq_2 CLOSE_def OPEN_def)
  from file_token_mutual_exclusion[OF r] show ?thesis
    unfolding r by (simp add: in_critical_section_def OPEN_def)
qed

text \<open>
  C4, as the specification words it: \<open>end_file_operation\<close> posts the semaphore before
  it clears \<open>lock\<close>. Guest 0 runs a CLOSE up to its \<open>sem_post\<close>; guest 1 then takes the
  permit and stores OPEN while the lock of guest 0 still reads CLOSE.
\<close>

theorem spec_mutual_exclusion_counterexample:
  "\<not> (case fire_all [SemWait 0 CLOSE, SetLock 0, SemPost 0, SemWait 1 OPEN, SetLock 1] (init_sys 2) of
        None \<Rightarrow> True
      | Some s \<Rightarrow> spec_mutual_exclusion s)"
  by (simp add: init_sys_def set_thread_def numeral_2_eq_2 CLOSE_def OPEN_def
      spec_mutual_exclusion_def)

end
